theory Spec2Isabelle
  imports Complex_Main "HOL-Library.List_Lexorder" "HOL-Library.Char_ord" "HOL-Library.Multiset"
begin

section \<open>The data model (src/lib/types.ts, src/lib/db.ts)\<close>

text \<open>
  Rows of the five tables, as the interfaces of \<^verbatim>\<open>types.ts\<close> declare them. Text columns
  are strings, a nullable column is an option, the 0/1 flags and the counters are the
  integers SQLite stores. Timestamps are the text SQLite and \<^verbatim>\<open>toISOString\<close> produce;
  they compare as text (the order of \<open>string\<close> is the lexicographic one on character
  codes, which is SQLite's BINARY collation).

  A value the code types \<^verbatim>\<open>number\<close> and takes from a caller (a supplied reading time, a
  limit, an offset) is a rational: every finite JavaScript number is one, and the code
  binds it as it is given, integer or not. \<^verbatim>\<open>NaN\<close> and the infinities are left out
  (\<^verbatim>\<open>NaN\<close> is falsy, as 0 is).
\<close>

type_synonym number = rat

record User =
  id :: string
  email :: string
  name :: "string option"
  password :: string
  role :: string
  created_at :: string
  updated_at :: string

record Post =
  id :: string
  title :: string
  slug :: string
  content :: string
  excerpt :: "string option"
  cover_image :: "string option"
  published :: int
  featured :: int
  reading_time :: number
  views :: int
  created_at :: string
  updated_at :: string
  published_at :: "string option"
  author_id :: string

record Category =
  id :: string
  name :: string
  slug :: string
  description :: "string option"
  color :: "string option"
  created_at :: string
  updated_at :: string

record Tag =
  id :: string
  name :: string
  slug :: string
  created_at :: string
  updated_at :: string

text \<open>\<^verbatim>\<open>PostWithRelations extends Post\<close>: the row with its author, categories and tags.\<close>

record PostWithRelations = Post +
  author :: "User option"
  categories :: "Category list"
  tags :: "Tag list"

text \<open>An optional field of an input (\<^verbatim>\<open>excerpt?: string\<close>) is \<open>None\<close> when it is \<^verbatim>\<open>undefined\<close>.\<close>

record CreatePostInput =
  title :: string
  slug :: string
  content :: string
  excerpt :: "string option"
  cover_image :: "string option"
  published :: "bool option"
  featured :: "bool option"
  reading_time :: "number option"
  author_id :: string
  categories :: "string list option"
  tags :: "string list option"

text \<open>\<^verbatim>\<open>UpdatePostInput extends Partial<CreatePostInput> { id: string }\<close>.\<close>

record UpdatePostInput =
  id :: string
  title :: "string option"
  slug :: "string option"
  content :: "string option"
  excerpt :: "string option"
  cover_image :: "string option"
  published :: "bool option"
  featured :: "bool option"
  reading_time :: "number option"
  author_id :: "string option"
  categories :: "string list option"
  tags :: "string list option"

text \<open>
  The database behind the shared connection \<^verbatim>\<open>db\<close>: each table is the list of its rows
  in insertion order; a junction row is the pair (post id, category or tag id).
\<close>

record database =
  users :: "User list"
  posts :: "Post list"
  categories :: "Category list"
  tags :: "Tag list"
  post_categories :: "(string \<times> string) list"
  post_tags :: "(string \<times> string) list"

text \<open>
  What a statement of better-sqlite3 throws: the constraint failures of the schema of
  \<^verbatim>\<open>initDatabase\<close> (foreign keys are enforced, \<^verbatim>\<open>db.pragma('foreign_keys = ON')\<close>),
  and \<^verbatim>\<open>SQLITE_ERROR\<close> for a statement that \<^verbatim>\<open>db.prepare\<close> cannot parse.
\<close>

datatype SqliteError =
    SQLITE_CONSTRAINT_PRIMARYKEY
  | SQLITE_CONSTRAINT_UNIQUE
  | SQLITE_CONSTRAINT_FOREIGNKEY
  | SQLITE_ERROR
  | SQLITE_MISMATCH

section \<open>The statements the services run\<close>

text \<open>
  A statement either changes the database or throws and leaves it as it was. The
  services open no transaction, so the statements that ran before a throw stay applied:
  a service operation returns the database it leaves behind together with its value or
  the error thrown. An INSERT tests the UNIQUE columns of its table before the primary
  key, and the foreign keys last.
\<close>

definition truthy_string :: "string option \<Rightarrow> string option" where
  \<comment> \<open>\<^verbatim>\<open>x || null\<close> on an optional string: undefined and the empty string give null\<close>
  "truthy_string x = (case x of None \<Rightarrow> None | Some s \<Rightarrow> if s = [] then None else Some s)"

definition flag :: "bool \<Rightarrow> int" where
  \<comment> \<open>\<^verbatim>\<open>b ? 1 : 0\<close>\<close>
  "flag b = (if b then 1 else 0)"

definition INSERT_INTO_users :: "User \<Rightarrow> database \<Rightarrow> SqliteError + database" where
  "INSERT_INTO_users row db =
     (if User.email row \<in> User.email ` set (users db) then Inl SQLITE_CONSTRAINT_UNIQUE
      else if User.id row \<in> User.id ` set (users db) then Inl SQLITE_CONSTRAINT_PRIMARYKEY
      else Inr (db\<lparr>users := users db @ [row]\<rparr>))"

definition INSERT_INTO_categories :: "Category \<Rightarrow> database \<Rightarrow> SqliteError + database" where
  "INSERT_INTO_categories row db =
     (if Category.name row \<in> Category.name ` set (database.categories db)
         \<or> Category.slug row \<in> Category.slug ` set (database.categories db)
        then Inl SQLITE_CONSTRAINT_UNIQUE
      else if Category.id row \<in> Category.id ` set (database.categories db)
        then Inl SQLITE_CONSTRAINT_PRIMARYKEY
      else Inr (db\<lparr>database.categories := database.categories db @ [row]\<rparr>))"

definition INSERT_INTO_tags :: "Tag \<Rightarrow> database \<Rightarrow> SqliteError + database" where
  "INSERT_INTO_tags row db =
     (if Tag.name row \<in> Tag.name ` set (database.tags db)
         \<or> Tag.slug row \<in> Tag.slug ` set (database.tags db)
        then Inl SQLITE_CONSTRAINT_UNIQUE
      else if Tag.id row \<in> Tag.id ` set (database.tags db) then Inl SQLITE_CONSTRAINT_PRIMARYKEY
      else Inr (db\<lparr>database.tags := database.tags db @ [row]\<rparr>))"

definition INSERT_INTO_posts :: "Post \<Rightarrow> database \<Rightarrow> SqliteError + database" where
  "INSERT_INTO_posts row db =
     (if Post.slug row \<in> Post.slug ` set (posts db) then Inl SQLITE_CONSTRAINT_UNIQUE
      else if Post.id row \<in> Post.id ` set (posts db) then Inl SQLITE_CONSTRAINT_PRIMARYKEY
      else if Post.author_id row \<notin> User.id ` set (users db) then Inl SQLITE_CONSTRAINT_FOREIGNKEY
      else Inr (db\<lparr>posts := posts db @ [row]\<rparr>))"

definition INSERT_INTO_post_categories ::
  "string \<Rightarrow> string \<Rightarrow> database \<Rightarrow> SqliteError + database" where
  "INSERT_INTO_post_categories post_id category_id db =
     (if (post_id, category_id) \<in> set (post_categories db) then Inl SQLITE_CONSTRAINT_PRIMARYKEY
      else if post_id \<notin> Post.id ` set (posts db)
            \<or> category_id \<notin> Category.id ` set (database.categories db)
        then Inl SQLITE_CONSTRAINT_FOREIGNKEY
      else Inr (db\<lparr>post_categories := post_categories db @ [(post_id, category_id)]\<rparr>))"

definition INSERT_INTO_post_tags ::
  "string \<Rightarrow> string \<Rightarrow> database \<Rightarrow> SqliteError + database" where
  "INSERT_INTO_post_tags post_id tag_id db =
     (if (post_id, tag_id) \<in> set (post_tags db) then Inl SQLITE_CONSTRAINT_PRIMARYKEY
      else if post_id \<notin> Post.id ` set (posts db) \<or> tag_id \<notin> Tag.id ` set (database.tags db)
        then Inl SQLITE_CONSTRAINT_FOREIGNKEY
      else Inr (db\<lparr>post_tags := post_tags db @ [(post_id, tag_id)]\<rparr>))"

definition DELETE_FROM_post_categories :: "string \<Rightarrow> database \<Rightarrow> database" where
  "DELETE_FROM_post_categories post_id db =
     db\<lparr>post_categories := filter (\<lambda>pc. fst pc \<noteq> post_id) (post_categories db)\<rparr>"

definition DELETE_FROM_post_tags :: "string \<Rightarrow> database \<Rightarrow> database" where
  "DELETE_FROM_post_tags post_id db =
     db\<lparr>post_tags := filter (\<lambda>pt. fst pt \<noteq> post_id) (post_tags db)\<rparr>"

text \<open>
  The column assignments \<^verbatim>\<open>update\<close> collects in \<^verbatim>\<open>updates\<close> and \<^verbatim>\<open>values\<close>
  (\<^verbatim>\<open>'title = ?'\<close> with its bound value, and so on).
\<close>

datatype assignment =
    title_eq string
  | slug_eq string
  | content_eq string
  | reading_time_eq number
  | excerpt_eq string
  | cover_image_eq string
  | published_eq int
  | published_at_eq string
  | featured_eq int
  | updated_at_eq string

fun assign :: "assignment \<Rightarrow> Post \<Rightarrow> Post" where
  "assign (title_eq v) p = p\<lparr>Post.title := v\<rparr>"
| "assign (slug_eq v) p = p\<lparr>Post.slug := v\<rparr>"
| "assign (content_eq v) p = p\<lparr>Post.content := v\<rparr>"
| "assign (reading_time_eq v) p = p\<lparr>Post.reading_time := v\<rparr>"
| "assign (excerpt_eq v) p = p\<lparr>Post.excerpt := Some v\<rparr>"
| "assign (cover_image_eq v) p = p\<lparr>Post.cover_image := Some v\<rparr>"
| "assign (published_eq v) p = p\<lparr>Post.published := v\<rparr>"
| "assign (published_at_eq v) p = p\<lparr>Post.published_at := Some v\<rparr>"
| "assign (featured_eq v) p = p\<lparr>Post.featured := v\<rparr>"
| "assign (updated_at_eq v) p = p\<lparr>Post.updated_at := v\<rparr>"

definition SET :: "assignment list \<Rightarrow> Post \<Rightarrow> Post" where
  "SET updates p = fold assign updates p"

text \<open>
  \<^verbatim>\<open>UPDATE posts SET ... WHERE id = ?\<close>. The statement fails, changing nothing, when a
  row it rewrites would take the slug of another row (\<^verbatim>\<open>slug TEXT UNIQUE\<close>); with no row
  of that id it changes nothing and succeeds.
\<close>

definition slug_taken :: "string \<Rightarrow> string \<Rightarrow> database \<Rightarrow> bool" where
  \<comment> \<open>a post other than \<open>post_id\<close> has the slug \<open>s\<close>\<close>
  "slug_taken s post_id db = (\<exists>q \<in> set (posts db). Post.id q \<noteq> post_id \<and> Post.slug q = s)"

definition UPDATE_posts :: "assignment list \<Rightarrow> string \<Rightarrow> database \<Rightarrow> SqliteError + database" where
  "UPDATE_posts updates post_id db =
     (if \<exists>p \<in> set (posts db). Post.id p = post_id \<and> slug_taken (Post.slug (SET updates p)) post_id db
      then Inl SQLITE_CONSTRAINT_UNIQUE
      else Inr (db\<lparr>posts := map (\<lambda>p. if Post.id p = post_id then SET updates p else p) (posts db)\<rparr>))"

section \<open>User, category and tag lookups (src/lib/db-service.ts)\<close>

definition userService_findById :: "string \<Rightarrow> database \<Rightarrow> User option" where
  "userService_findById i db = find (\<lambda>u. User.id u = i) (users db)"

definition userService_findByEmail :: "string \<Rightarrow> database \<Rightarrow> User option" where
  "userService_findByEmail e db = find (\<lambda>u. User.email u = e) (users db)"

definition categoryService_findById :: "string \<Rightarrow> database \<Rightarrow> Category option" where
  "categoryService_findById i db = find (\<lambda>c. Category.id c = i) (database.categories db)"

definition categoryService_findBySlug :: "string \<Rightarrow> database \<Rightarrow> Category option" where
  "categoryService_findBySlug s db = find (\<lambda>c. Category.slug c = s) (database.categories db)"

definition tagService_findById :: "string \<Rightarrow> database \<Rightarrow> Tag option" where
  "tagService_findById i db = find (\<lambda>t. Tag.id t = i) (database.tags db)"

definition tagService_findBySlug :: "string \<Rightarrow> database \<Rightarrow> Tag option" where
  "tagService_findBySlug s db = find (\<lambda>t. Tag.slug t = s) (database.tags db)"

text \<open>
  \<^verbatim>\<open>SELECT c.* FROM categories c INNER JOIN post_categories pc ON c.id = pc.category_id
  WHERE pc.post_id = ?\<close>: one category row per junction row of the post. SQLite reads the
  junction rows of a post from the index of the primary key (post_id, category_id), so
  the categories come in the order of their ids, not in the order they were attached.
\<close>

definition categoryService_findByPostId :: "string \<Rightarrow> database \<Rightarrow> Category list" where
  "categoryService_findByPostId postId db =
     concat (map (\<lambda>category_id. filter (\<lambda>c. Category.id c = category_id) (database.categories db))
                 (sort (map snd (filter (\<lambda>pc. fst pc = postId) (post_categories db)))))"

definition tagService_findByPostId :: "string \<Rightarrow> database \<Rightarrow> Tag list" where
  "tagService_findByPostId postId db =
     concat (map (\<lambda>tag_id. filter (\<lambda>t. Tag.id t = tag_id) (database.tags db))
                 (sort (map snd (filter (\<lambda>pt. fst pt = postId) (post_tags db)))))"

section \<open>postService (src/lib/db-service.ts)\<close>

definition with_relations :: "Post \<Rightarrow> database \<Rightarrow> PostWithRelations" where
  \<comment> \<open>\<^verbatim>\<open>{ ...post, categories: ..., tags: ..., author: ... }\<close>\<close>
  "with_relations post db =
     Post.extend post
       (PostWithRelations.fields
          (userService_findById (Post.author_id post) db)
          (categoryService_findByPostId (Post.id post) db)
          (tagService_findByPostId (Post.id post) db))"

definition postService_findById :: "string \<Rightarrow> database \<Rightarrow> PostWithRelations option" where
  "postService_findById i db =
     (case find (\<lambda>p. Post.id p = i) (posts db) of
        None \<Rightarrow> None
      | Some post \<Rightarrow> Some (with_relations post db))"

definition postService_findBySlug :: "string \<Rightarrow> database \<Rightarrow> PostWithRelations option" where
  "postService_findBySlug s db =
     (case find (\<lambda>p. Post.slug p = s) (posts db) of
        None \<Rightarrow> None
      | Some post \<Rightarrow> Some (with_relations post db))"

text \<open>The loops \<^verbatim>\<open>for (const categoryId of ...) catStmt.run(id, categoryId)\<close>: the first
  insert that throws ends the loop, and the rows inserted before it stay.\<close>

fun insert_categories :: "string \<Rightarrow> string list \<Rightarrow> database \<Rightarrow> database \<times> SqliteError option" where
  "insert_categories post_id [] db = (db, None)"
| "insert_categories post_id (categoryId # rest) db =
     (case INSERT_INTO_post_categories post_id categoryId db of
        Inl e \<Rightarrow> (db, Some e)
      | Inr db' \<Rightarrow> insert_categories post_id rest db')"

fun insert_tags :: "string \<Rightarrow> string list \<Rightarrow> database \<Rightarrow> database \<times> SqliteError option" where
  "insert_tags post_id [] db = (db, None)"
| "insert_tags post_id (tagId # rest) db =
     (case INSERT_INTO_post_tags post_id tagId db of
        Inl e \<Rightarrow> (db, Some e)
      | Inr db' \<Rightarrow> insert_tags post_id rest db')"

text \<open>
  \<^verbatim>\<open>update\<close>, lines 78 to 150. \<open>now1\<close> and \<open>now2\<close> are what the two reads of the clock,
  \<^verbatim>\<open>new Date().toISOString()\<close>, give (the publish stamp and the update stamp);
  \<open>calculateReadingTime\<close> is the helper of \<^verbatim>\<open>./utils\<close>.
\<close>

definition updates_of ::
  "(string \<Rightarrow> number) \<Rightarrow> string \<Rightarrow> string \<Rightarrow> UpdatePostInput \<Rightarrow> assignment list" where
  "updates_of calculateReadingTime now1 now2 input =
     (case UpdatePostInput.title input of None \<Rightarrow> [] | Some v \<Rightarrow> [title_eq v])
   @ (case UpdatePostInput.slug input of None \<Rightarrow> [] | Some v \<Rightarrow> [slug_eq v])
   @ (case UpdatePostInput.content input of None \<Rightarrow> []
      | Some v \<Rightarrow> [content_eq v, reading_time_eq (calculateReadingTime v)])
   @ (case UpdatePostInput.excerpt input of None \<Rightarrow> [] | Some v \<Rightarrow> [excerpt_eq v])
   @ (case UpdatePostInput.cover_image input of None \<Rightarrow> [] | Some v \<Rightarrow> [cover_image_eq v])
   @ (case UpdatePostInput.published input of None \<Rightarrow> []
      | Some b \<Rightarrow> published_eq (flag b) # (if b then [published_at_eq now1] else []))
   @ (case UpdatePostInput.featured input of None \<Rightarrow> [] | Some b \<Rightarrow> [featured_eq (flag b)])
   @ [updated_at_eq now2]"

definition update_categories ::
  "string list option \<Rightarrow> string \<Rightarrow> database \<Rightarrow> database \<times> SqliteError option" where
  "update_categories cats post_id db =
     (case cats of
        None \<Rightarrow> (db, None)
      | Some cs \<Rightarrow>
          (let db1 = DELETE_FROM_post_categories post_id db
           in if length cs > 0 then insert_categories post_id cs db1 else (db1, None)))"

definition update_tags ::
  "string list option \<Rightarrow> string \<Rightarrow> database \<Rightarrow> database \<times> SqliteError option" where
  "update_tags ts post_id db =
     (case ts of
        None \<Rightarrow> (db, None)
      | Some tgs \<Rightarrow>
          (let db1 = DELETE_FROM_post_tags post_id db
           in if length tgs > 0 then insert_tags post_id tgs db1 else (db1, None)))"

definition postService_update ::
  "(string \<Rightarrow> number) \<Rightarrow> string \<Rightarrow> string \<Rightarrow> UpdatePostInput \<Rightarrow> database
     \<Rightarrow> database \<times> (SqliteError + PostWithRelations option)" where
  "postService_update calculateReadingTime now1 now2 input db =
     (case UPDATE_posts (updates_of calculateReadingTime now1 now2 input)
             (UpdatePostInput.id input) db of
        Inl e \<Rightarrow> (db, Inl e)
      | Inr db1 \<Rightarrow>
          (case update_categories (UpdatePostInput.categories input) (UpdatePostInput.id input) db1 of
             (db2, Some e) \<Rightarrow> (db2, Inl e)
           | (db2, None) \<Rightarrow>
               (case update_tags (UpdatePostInput.tags input) (UpdatePostInput.id input) db2 of
                  (db3, Some e) \<Rightarrow> (db3, Inl e)
                | (db3, None) \<Rightarrow>
                    (db3, Inr (postService_findById (UpdatePostInput.id input) db3)))))"

text \<open>The category (tag) ids the junction table holds for a post.\<close>

definition category_ids_of :: "string \<Rightarrow> database \<Rightarrow> string list" where
  "category_ids_of post_id db = map snd (filter (\<lambda>pc. fst pc = post_id) (post_categories db))"

definition tag_ids_of :: "string \<Rightarrow> database \<Rightarrow> string list" where
  "tag_ids_of post_id db = map snd (filter (\<lambda>pt. fst pt = post_id) (post_tags db))"

definition posts_get :: "string \<Rightarrow> database \<Rightarrow> Post option" where
  \<comment> \<open>\<^verbatim>\<open>db.prepare('SELECT * FROM posts WHERE id = ?').get(id)\<close>\<close>
  "posts_get i db = find (\<lambda>p. Post.id p = i) (posts db)"

text \<open>
  \<^verbatim>\<open>create\<close>, lines 31 to 76. \<open>uuid\<close> is what \<^verbatim>\<open>uuidv4()\<close> gives, \<open>now\<close> the clock read
  of line 36, \<open>CURRENT_TIMESTAMP\<close> the column default SQLite fills in. The value is what
  \<^verbatim>\<open>findById\<close> returns (the \<^verbatim>\<open>!\<close> of line 75 is erased at run time).
\<close>

definition postService_create ::
  "(string \<Rightarrow> number) \<Rightarrow> string \<Rightarrow> string \<Rightarrow> string \<Rightarrow> CreatePostInput \<Rightarrow> database
     \<Rightarrow> database \<times> (SqliteError + PostWithRelations option)" where
  "postService_create calculateReadingTime uuid now CURRENT_TIMESTAMP input db =
     (let readingTime =
            (case CreatePostInput.reading_time input of
               None \<Rightarrow> calculateReadingTime (CreatePostInput.content input)
             | Some n \<Rightarrow> if n = 0 then calculateReadingTime (CreatePostInput.content input) else n);
          is_published = (CreatePostInput.published input = Some True);
          is_featured = (CreatePostInput.featured input = Some True);
          publishedAt = (if is_published then Some now else None)
      in case INSERT_INTO_posts
                \<lparr>Post.id = uuid, Post.title = CreatePostInput.title input,
                 Post.slug = CreatePostInput.slug input,
                 Post.content = CreatePostInput.content input,
                 Post.excerpt = truthy_string (CreatePostInput.excerpt input),
                 Post.cover_image = truthy_string (CreatePostInput.cover_image input),
                 Post.published = flag is_published, Post.featured = flag is_featured,
                 Post.reading_time = readingTime, Post.views = 0,
                 Post.created_at = CURRENT_TIMESTAMP, Post.updated_at = CURRENT_TIMESTAMP,
                 Post.published_at = publishedAt,
                 Post.author_id = CreatePostInput.author_id input\<rparr> db of
           Inl e \<Rightarrow> (db, Inl e)
         | Inr db1 \<Rightarrow>
             (case (case CreatePostInput.categories input of
                      None \<Rightarrow> (db1, None)
                    | Some cs \<Rightarrow> if length cs > 0 then insert_categories uuid cs db1 else (db1, None)) of
                (db2, Some e) \<Rightarrow> (db2, Inl e)
              | (db2, None) \<Rightarrow>
                  (case (case CreatePostInput.tags input of
                           None \<Rightarrow> (db2, None)
                         | Some ts \<Rightarrow> if length ts > 0 then insert_tags uuid ts db2 else (db2, None)) of
                     (db3, Some e) \<Rightarrow> (db3, Inl e)
                   | (db3, None) \<Rightarrow> (db3, Inr (postService_findById uuid db3)))))"

text \<open>The row that \<^verbatim>\<open>create\<close> inserts (the values bound at lines 45 to 57).\<close>

definition created_row :: "(string \<Rightarrow> number) \<Rightarrow> string \<Rightarrow> string \<Rightarrow> string \<Rightarrow> CreatePostInput \<Rightarrow> Post" where
  "created_row crt uuid now ts input =
     \<lparr>Post.id = uuid, Post.title = CreatePostInput.title input,
      Post.slug = CreatePostInput.slug input,
      Post.content = CreatePostInput.content input,
      Post.excerpt = truthy_string (CreatePostInput.excerpt input),
      Post.cover_image = truthy_string (CreatePostInput.cover_image input),
      Post.published = flag (CreatePostInput.published input = Some True),
      Post.featured = flag (CreatePostInput.featured input = Some True),
      Post.reading_time =
        (case CreatePostInput.reading_time input of
           None \<Rightarrow> crt (CreatePostInput.content input)
         | Some n \<Rightarrow> if n = 0 then crt (CreatePostInput.content input) else n),
      Post.views = 0, Post.created_at = ts, Post.updated_at = ts,
      Post.published_at = (if CreatePostInput.published input = Some True then Some now else None),
      Post.author_id = CreatePostInput.author_id input\<rparr>"

subsection \<open>Listing and searching\<close>

text \<open>
  \<^verbatim>\<open>ORDER BY created_at DESC\<close>: the rows by descending creation time. SQLite leaves the
  order of rows with equal keys open; here they keep their table order.
\<close>

fun insert_desc :: "Post \<Rightarrow> Post list \<Rightarrow> Post list" where
  "insert_desc p [] = [p]"
| "insert_desc p (q # qs) =
     (if Post.created_at q \<le> Post.created_at p then p # q # qs else q # insert_desc p qs)"

definition ORDER_BY_created_at_DESC :: "Post list \<Rightarrow> Post list" where
  "ORDER_BY_created_at_DESC rows = foldr insert_desc rows []"

definition LIMIT_rows :: "int \<Rightarrow> 'a list \<Rightarrow> 'a list" where
  \<comment> \<open>a negative limit is no limit\<close>
  "LIMIT_rows n rows = (if n < 0 then rows else take (nat n) rows)"

definition OFFSET_rows :: "int \<Rightarrow> 'a list \<Rightarrow> 'a list" where
  \<comment> \<open>a negative offset is no offset\<close>
  "OFFSET_rows m rows = drop (nat m) rows"

definition is_int64 :: "number \<Rightarrow> bool" where
  \<comment> \<open>the value bound to LIMIT or OFFSET must be an integer of 64 bits, or the statement
      fails with "datatype mismatch"\<close>
  "is_int64 n = (n = of_int \<lfloor>n\<rfloor> \<and> - (2 ^ 63) \<le> n \<and> n < 2 ^ 63)"

text \<open>
  The query text \<^verbatim>\<open>findAll\<close> builds: the clauses it appends to
  \<^verbatim>\<open>SELECT * FROM posts WHERE 1=1\<close>, each \<^verbatim>\<open>?\<close> bound to the next parameter.
\<close>

datatype clause = AND_published | AND_featured | ORDER_BY | LIMIT | OFFSET

text \<open>
  \<^verbatim>\<open>db.prepare(query)\<close> throws on a text that is not a SELECT statement of SQLite. After
  the conditions and the ORDER BY, SQLite's grammar allows nothing, \<^verbatim>\<open>LIMIT ?\<close>, or
  \<^verbatim>\<open>LIMIT ? OFFSET ?\<close>; an OFFSET with no LIMIT before it is a syntax error.
\<close>

fun limit_clause :: "clause list \<Rightarrow> bool" where
  "limit_clause [] = True"
| "limit_clause [LIMIT] = True"
| "limit_clause [LIMIT, OFFSET] = True"
| "limit_clause _ = False"

fun prepare :: "clause list \<Rightarrow> bool" where
  "prepare (AND_published # q) = prepare q"
| "prepare (AND_featured # q) = prepare q"
| "prepare (ORDER_BY # q) = limit_clause q"
| "prepare q = limit_clause q"

text \<open>\<^verbatim>\<open>stmt.all(...params)\<close> of a prepared query: conditions filter, then the order, then
  the offset, then the limit. A limit or offset that is not a 64-bit integer (2.5, 1e19)
  makes the statement throw.\<close>

fun all_rows :: "clause list \<Rightarrow> number list \<Rightarrow> Post list \<Rightarrow> SqliteError + Post list" where
  "all_rows (AND_published # q) (v # vs) rows =
     all_rows q vs (filter (\<lambda>p. of_int (Post.published p) = v) rows)"
| "all_rows (AND_featured # q) (v # vs) rows =
     all_rows q vs (filter (\<lambda>p. of_int (Post.featured p) = v) rows)"
| "all_rows (ORDER_BY # q) vs rows = all_rows q vs (ORDER_BY_created_at_DESC rows)"
| "all_rows [LIMIT] [n] rows =
     (if is_int64 n then Inr (LIMIT_rows \<lfloor>n\<rfloor> rows) else Inl SQLITE_MISMATCH)"
| "all_rows [LIMIT, OFFSET] [n, m] rows =
     (if is_int64 n \<and> is_int64 m then Inr (LIMIT_rows \<lfloor>n\<rfloor> (OFFSET_rows \<lfloor>m\<rfloor> rows))
      else Inl SQLITE_MISMATCH)"
| "all_rows q vs rows = Inr rows"

text \<open>\<^verbatim>\<open>findAll\<close>, lines 180 to 215. \<^verbatim>\<open>if (options?.limit)\<close> is false for an absent limit
  and for 0; an absent \<^verbatim>\<open>options\<close> is the record with no field.\<close>

record findAll_options =
  published :: "bool option"
  featured :: "bool option"
  limit :: "number option"
  offset :: "number option"

definition truthy_number :: "number option \<Rightarrow> number option" where
  "truthy_number x = (case x of None \<Rightarrow> None | Some n \<Rightarrow> if n = 0 then None else Some n)"

definition findAll_query :: "findAll_options \<Rightarrow> clause list \<times> number list" where
  "findAll_query options =
     (let (query, params) = ([], []);
          (query, params) =
             (case findAll_options.published options of
                None \<Rightarrow> (query, params)
              | Some b \<Rightarrow> (query @ [AND_published], params @ [of_int (flag b)]));
          (query, params) =
             (case findAll_options.featured options of
                None \<Rightarrow> (query, params)
              | Some b \<Rightarrow> (query @ [AND_featured], params @ [of_int (flag b)]));
          query = query @ [ORDER_BY];
          (query, params) =
             (case truthy_number (findAll_options.limit options) of
                None \<Rightarrow> (query, params)
              | Some n \<Rightarrow> (query @ [LIMIT], params @ [n]));
          (query, params) =
             (case truthy_number (findAll_options.offset options) of
                None \<Rightarrow> (query, params)
              | Some m \<Rightarrow> (query @ [OFFSET], params @ [m]))
      in (query, params))"

definition postService_findAll ::
  "findAll_options \<Rightarrow> database \<Rightarrow> SqliteError + PostWithRelations list" where
  "postService_findAll options db =
     (case findAll_query options of
        (query, params) \<Rightarrow>
          if prepare query
          then (case all_rows query params (posts db) of
                  Inl e \<Rightarrow> Inl e
                | Inr rows \<Rightarrow> Inr (map (\<lambda>post. with_relations post db) rows))
          else Inl SQLITE_ERROR)"

text \<open>What the spec says \<^verbatim>\<open>findAll\<close> returns: the rows that satisfy every supplied
  filter, and the page of them the supplied limit and offset select.\<close>

definition page :: "findAll_options \<Rightarrow> 'a list \<Rightarrow> 'a list" where
  "page options rows =
     (case truthy_number (findAll_options.limit options) of
        None \<Rightarrow> rows
      | Some n \<Rightarrow>
          LIMIT_rows \<lfloor>n\<rfloor> (case truthy_number (findAll_options.offset options) of
                            None \<Rightarrow> rows | Some m \<Rightarrow> OFFSET_rows \<lfloor>m\<rfloor> rows))"

definition selected :: "findAll_options \<Rightarrow> Post \<Rightarrow> bool" where
  "selected options p =
     ((case findAll_options.published options of None \<Rightarrow> True | Some b \<Rightarrow> Post.published p = flag b)
      \<and> (case findAll_options.featured options of None \<Rightarrow> True | Some b \<Rightarrow> Post.featured p = flag b))"

text \<open>
  SQLite's \<^verbatim>\<open>text LIKE pattern\<close> with no ESCAPE: \<^verbatim>\<open>%\<close> stands for any run of characters,
  \<^verbatim>\<open>_\<close> for any one character, every other character for itself, the letters A to Z
  and a to z without regard to case. A NULL operand matches nothing.
\<close>

definition lower :: "char \<Rightarrow> char" where
  "lower c = (case map_of (zip ''ABCDEFGHIJKLMNOPQRSTUVWXYZ'' ''abcdefghijklmnopqrstuvwxyz'') c of
                None \<Rightarrow> c | Some d \<Rightarrow> d)"

fun LIKE :: "string \<Rightarrow> string \<Rightarrow> bool" where
  "LIKE [] [] = True"
| "LIKE (c # cs) [] = False"
| "LIKE [] (p # ps) = (p = CHR ''%'' \<and> LIKE [] ps)"
| "LIKE (c # cs) (p # ps) =
     (if p = CHR ''%'' then LIKE (c # cs) ps \<or> LIKE cs (p # ps)
      else (p = CHR ''_'' \<or> lower p = lower c) \<and> LIKE cs ps)"

definition LIKE_nullable :: "string option \<Rightarrow> string \<Rightarrow> bool" where
  "LIKE_nullable x pattern = (case x of None \<Rightarrow> False | Some s \<Rightarrow> LIKE s pattern)"

text \<open>\<^verbatim>\<open>search\<close>, lines 217 to 232.\<close>

definition postService_search :: "string \<Rightarrow> database \<Rightarrow> PostWithRelations list" where
  "postService_search query db =
     (let searchTerm = ''%'' @ query @ ''%''
      in map (\<lambda>post. with_relations post db)
           (ORDER_BY_created_at_DESC
              (filter (\<lambda>p. Post.published p = 1
                          \<and> (LIKE (Post.title p) searchTerm \<or> LIKE (Post.content p) searchTerm
                              \<or> LIKE_nullable (Post.excerpt p) searchTerm))
                 (posts db))))"

text \<open>
  The reading of the spec that \<^verbatim>\<open>search\<close> is compared with: the query occurs in the text
  as a substring, letters compared without regard to case.
\<close>

fun starts_with_ci :: "string \<Rightarrow> string \<Rightarrow> bool" where
  "starts_with_ci [] s = True"
| "starts_with_ci (q # qs) [] = False"
| "starts_with_ci (q # qs) (c # cs) = (lower q = lower c \<and> starts_with_ci qs cs)"

fun contains_ci :: "string \<Rightarrow> string \<Rightarrow> bool" where
  "contains_ci q [] = (q = [])"
| "contains_ci q (c # cs) = (starts_with_ci q (c # cs) \<or> contains_ci q cs)"

definition spec_search_matches :: "string \<Rightarrow> Post \<Rightarrow> bool" where
  "spec_search_matches query p =
     (Post.published p = 1
      \<and> (contains_ci query (Post.title p) \<or> contains_ci query (Post.content p)
          \<or> (case Post.excerpt p of None \<Rightarrow> False | Some e \<Rightarrow> contains_ci query e)))"

section \<open>userService, categoryService, tagService: create\<close>

text \<open>\<open>generateSlug\<close> is the helper of \<^verbatim>\<open>./utils\<close>; the columns an INSERT does not name
  take their defaults (\<^verbatim>\<open>role\<close> is \<^verbatim>\<open>'admin'\<close>, the stamps are \<open>CURRENT_TIMESTAMP\<close>).\<close>

definition userService_create ::
  "string \<Rightarrow> string \<Rightarrow> string \<Rightarrow> string \<Rightarrow> string \<Rightarrow> database
     \<Rightarrow> database \<times> (SqliteError + User option)" where
  "userService_create uuid CURRENT_TIMESTAMP e n pw db =
     (case INSERT_INTO_users
             \<lparr>User.id = uuid, User.email = e, User.name = Some n, User.password = pw,
              User.role = ''admin'', User.created_at = CURRENT_TIMESTAMP,
              User.updated_at = CURRENT_TIMESTAMP\<rparr> db of
        Inl err \<Rightarrow> (db, Inl err)
      | Inr db' \<Rightarrow> (db', Inr (userService_findById uuid db')))"

definition categoryService_create ::
  "(string \<Rightarrow> string) \<Rightarrow> string \<Rightarrow> string \<Rightarrow> string \<Rightarrow> string option \<Rightarrow> string option
     \<Rightarrow> database \<Rightarrow> database \<times> (SqliteError + Category option)" where
  "categoryService_create generateSlug uuid CURRENT_TIMESTAMP n d c db =
     (case INSERT_INTO_categories
             \<lparr>Category.id = uuid, Category.name = n, Category.slug = generateSlug n,
              Category.description = truthy_string d, Category.color = truthy_string c,
              Category.created_at = CURRENT_TIMESTAMP,
              Category.updated_at = CURRENT_TIMESTAMP\<rparr> db of
        Inl err \<Rightarrow> (db, Inl err)
      | Inr db' \<Rightarrow> (db', Inr (categoryService_findById uuid db')))"

definition tagService_create ::
  "(string \<Rightarrow> string) \<Rightarrow> string \<Rightarrow> string \<Rightarrow> string \<Rightarrow> database
     \<Rightarrow> database \<times> (SqliteError + Tag option)" where
  "tagService_create generateSlug uuid CURRENT_TIMESTAMP n db =
     (case INSERT_INTO_tags
             \<lparr>Tag.id = uuid, Tag.name = n, Tag.slug = generateSlug n,
              Tag.created_at = CURRENT_TIMESTAMP, Tag.updated_at = CURRENT_TIMESTAMP\<rparr> db of
        Inl err \<Rightarrow> (db, Inl err)
      | Inr db' \<Rightarrow> (db', Inr (tagService_findById uuid db')))"

section \<open>The handlers POST /api/categories and POST /api/tags\<close>

text \<open>
  \<^verbatim>\<open>NextResponse.json(data, { status })\<close> is \<open>Json data status\<close>, and
  \<^verbatim>\<open>NextResponse.json({ error: message }, { status })\<close> is \<open>Error message status\<close>. The
  \<^verbatim>\<open>catch\<close> block of a handler logs the error and answers the same for every error.
\<close>

datatype 'a NextResponse = Json 'a nat | Error string nat

record category_body =
  name :: "string option"
  description :: "string option"
  color :: "string option"

definition POST_categories ::
  "(string \<Rightarrow> string) \<Rightarrow> string \<Rightarrow> string \<Rightarrow> category_body \<Rightarrow> database
     \<Rightarrow> database \<times> Category option NextResponse" where
  "POST_categories generateSlug uuid CURRENT_TIMESTAMP body db =
     (case truthy_string (category_body.name body) of
        None \<Rightarrow> (db, Error ''Name is required'' 400)
      | Some n \<Rightarrow>
          (case categoryService_create generateSlug uuid CURRENT_TIMESTAMP n
                  (category_body.description body) (category_body.color body) db of
             (db', Inl err) \<Rightarrow> (db', Error ''Failed to create category'' 500)
           | (db', Inr category) \<Rightarrow> (db', Json category 201)))"

definition POST_tags ::
  "(string \<Rightarrow> string) \<Rightarrow> string \<Rightarrow> string \<Rightarrow> string option \<Rightarrow> database
     \<Rightarrow> database \<times> Tag option NextResponse" where
  "POST_tags generateSlug uuid CURRENT_TIMESTAMP body_name db =
     (case truthy_string body_name of
        None \<Rightarrow> (db, Error ''Name is required'' 400)
      | Some n \<Rightarrow>
          (case tagService_create generateSlug uuid CURRENT_TIMESTAMP n db of
             (db', Inl err) \<Rightarrow> (db', Error ''Failed to create tag'' 500)
           | (db', Inr tag) \<Rightarrow> (db', Json tag 201)))"

section \<open>Reading time (src/lib/utils)\<close>

text \<open>
  \<^verbatim>\<open>calculateReadingTime\<close> is imported from \<^verbatim>\<open>./utils\<close>, which is not among the sources.
  The services above take it as a parameter; the definitions of this section give the
  estimator the spec describes (4.3): "a positive integer estimate of minutes to read,
  derived from a word count divided by an assumed reading speed, with a floor of one
  minute", the speed being about 200 words per minute (8).
\<close>

text \<open>Modelled from the spec: white space, which separates the words that
  \<^verbatim>\<open>calculateReadingTime\<close> (not among the sources) counts.\<close>

definition is_space :: "char \<Rightarrow> bool" where
  "is_space c = (c = CHR '' '' \<or> c = CHR 0x09 \<or> c = CHR 0x0A \<or> c = CHR 0x0D)"

text \<open>Modelled from the spec: the word count of \<^verbatim>\<open>calculateReadingTime\<close> (not among the
  sources); a word is a maximal run of characters that are not white space, counted at
  its last character.\<close>

fun word_count :: "string \<Rightarrow> nat" where
  "word_count [] = 0"
| "word_count [c] = (if is_space c then 0 else 1)"
| "word_count (c # d # cs) = (if \<not> is_space c \<and> is_space d then 1 else 0) + word_count (d # cs)"

text \<open>Modelled from the spec: the assumed reading speed of \<^verbatim>\<open>calculateReadingTime\<close> (not
  among the sources), "~200 wpm".\<close>

definition wordsPerMinute :: nat where
  "wordsPerMinute = 200"

text \<open>Modelled from the spec: \<^verbatim>\<open>calculateReadingTime\<close> of \<^verbatim>\<open>src/lib/utils\<close> (not among the
  sources), the word count divided by the reading speed, with a floor of one minute. The
  spec does not say how the quotient is rounded; it is rounded down here.\<close>

definition calculateReadingTime :: "string \<Rightarrow> number" where
  "calculateReadingTime s = of_nat (max 1 (word_count s div wordsPerMinute))"

text \<open>Modelled from the spec: what it asks of a stored reading time, "a positive
  integer"; the stored value is a number, so being whole is part of the predicate.\<close>

definition positive_integer :: "number \<Rightarrow> bool" where
  "positive_integer x = (0 < x \<and> x = of_int \<lfloor>x\<rfloor>)"

section \<open>Slugs (src/lib/utils)\<close>

text \<open>
  \<^verbatim>\<open>generateSlug\<close> is imported from \<^verbatim>\<open>./utils\<close>, which is not among the sources. The
  services and handlers above take it as a parameter; the definitions of this section
  give the generator the spec describes (3, 4.2): the text "lowercased, non-alphanumeric
  runs collapsed to a single hyphen, leading/trailing hyphens trimmed".
\<close>

text \<open>Modelled from the spec: the alphanumeric characters that \<^verbatim>\<open>generateSlug\<close> (not among
  the sources) keeps, after lowercasing: the ASCII letters a to z and the digits.\<close>

definition is_alnum :: "char \<Rightarrow> bool" where
  "is_alnum c = (c \<in> set ''abcdefghijklmnopqrstuvwxyz0123456789'')"

text \<open>Modelled from the spec: the collapsing step of \<^verbatim>\<open>generateSlug\<close> (not among the
  sources); each maximal run of non-alphanumeric characters becomes one hyphen, written
  at the last character of the run.\<close>

fun collapse :: "string \<Rightarrow> string" where
  "collapse [] = []"
| "collapse [c] = [if is_alnum c then c else CHR ''-'']"
| "collapse (c # d # cs) =
     (if is_alnum c then c # collapse (d # cs)
      else if is_alnum d then CHR ''-'' # collapse (d # cs)
      else collapse (d # cs))"

text \<open>Modelled from the spec: the trimming step of \<^verbatim>\<open>generateSlug\<close> (not among the
  sources); leading and trailing hyphens are removed.\<close>

definition trim_hyphens :: "string \<Rightarrow> string" where
  "trim_hyphens s =
     rev (dropWhile (\<lambda>c. c = CHR ''-'') (rev (dropWhile (\<lambda>c. c = CHR ''-'') s)))"

text \<open>Modelled from the spec: \<^verbatim>\<open>generateSlug\<close> of \<^verbatim>\<open>src/lib/utils\<close> (not among the
  sources): lowercase, collapse, trim.\<close>

definition generateSlug :: "string \<Rightarrow> string" where
  "generateSlug s = trim_hyphens (collapse (map lower s))"

text \<open>What the spec (8) asks of a slug: only lowercase alphanumerics and hyphens, no two
  hyphens in a row, no hyphen first or last.\<close>

fun double_hyphen :: "string \<Rightarrow> bool" where
  "double_hyphen (c # d # cs) = (c = CHR ''-'' \<and> d = CHR ''-'' \<or> double_hyphen (d # cs))"
| "double_hyphen s = False"

definition is_slug :: "string \<Rightarrow> bool" where
  "is_slug s =
     (list_all (\<lambda>c. is_alnum c \<or> c = CHR ''-'') s \<and> \<not> double_hyphen s
      \<and> (s = [] \<or> hd s \<noteq> CHR ''-'' \<and> last s \<noteq> CHR ''-''))"

text \<open>
  What the spec's words say the slug of a text is, without the steps of the generator:
  the text is cut at every character that is not alphanumeric (\<open>fields\<close>), the empty
  pieces are dropped (\<open>alnum_words\<close>), and the pieces are joined with single hyphens.
\<close>

text \<open>Modelled from the spec: the pieces of a text between its non-alphanumeric
  characters, empty pieces included.\<close>

fun fields :: "string \<Rightarrow> string list" where
  "fields [] = [[]]"
| "fields (c # cs) =
     (if is_alnum c then (case fields cs of [] \<Rightarrow> [[c]] | w # ws \<Rightarrow> (c # w) # ws)
      else [] # fields cs)"

text \<open>Modelled from the spec: the maximal alphanumeric runs of a text, in order.\<close>

definition alnum_words :: "string \<Rightarrow> string list" where
  "alnum_words s = filter (\<lambda>w. w \<noteq> []) (fields s)"

text \<open>Modelled from the spec: the runs written one after the other with a single hyphen
  between two of them, and none first or last.\<close>

fun join_hyphens :: "string list \<Rightarrow> string" where
  "join_hyphens [] = []"
| "join_hyphens [w] = w"
| "join_hyphens (w # v # ws) = w @ CHR ''-'' # join_hyphens (v # ws)"

section \<open>Example data\<close>

text \<open>A small database on which the theorems below are instantiated: one user, a published
  and an unpublished post, two categories and a tag.\<close>

definition admin :: User where
  "admin = \<lparr>User.id = ''u1'', User.email = ''admin@knowledgehub.com'',
            User.name = Some ''Admin User'', User.password = ''hash'', User.role = ''admin'',
            User.created_at = ''2024-01-01 00:00:00'', User.updated_at = ''2024-01-01 00:00:00''\<rparr>"

definition tech :: Category where
  "tech = \<lparr>Category.id = ''c1'', Category.name = ''Tech'', Category.slug = ''tech'',
           Category.description = None, Category.color = None,
           Category.created_at = ''2024-01-01 00:00:00'',
           Category.updated_at = ''2024-01-01 00:00:00''\<rparr>"

definition life :: Category where
  "life = \<lparr>Category.id = ''c2'', Category.name = ''Life'', Category.slug = ''life'',
           Category.description = None, Category.color = None,
           Category.created_at = ''2024-01-01 00:00:00'',
           Category.updated_at = ''2024-01-01 00:00:00''\<rparr>"

definition nextjs :: Tag where
  "nextjs = \<lparr>Tag.id = ''t1'', Tag.name = ''Next.js'', Tag.slug = ''next-js'',
             Tag.created_at = ''2024-01-01 00:00:00'', Tag.updated_at = ''2024-01-01 00:00:00''\<rparr>"

definition hello :: Post where
  "hello = \<lparr>Post.id = ''p1'', Post.title = ''Hello World'', Post.slug = ''hello-world'',
            Post.content = ''Next steps'', Post.excerpt = None, Post.cover_image = None,
            Post.published = 1, Post.featured = 0, Post.reading_time = 1, Post.views = 0,
            Post.created_at = ''2024-01-02 00:00:00'', Post.updated_at = ''2024-01-02 00:00:00'',
            Post.published_at = Some ''2024-01-02T00:00:00.000Z'', Post.author_id = ''u1''\<rparr>"

definition draft :: Post where
  "draft = \<lparr>Post.id = ''p2'', Post.title = ''a'', Post.slug = ''draft'',
            Post.content = ''what comes next'', Post.excerpt = None, Post.cover_image = None,
            Post.published = 0, Post.featured = 0, Post.reading_time = 1, Post.views = 0,
            Post.created_at = ''2024-01-03 00:00:00'', Post.updated_at = ''2024-01-03 00:00:00'',
            Post.published_at = None, Post.author_id = ''u1''\<rparr>"

definition db0 :: database where
  "db0 = \<lparr>users = [admin], posts = [hello, draft], database.categories = [tech, life],
          database.tags = [nextjs], post_categories = [(''p1'', ''c1'')],
          post_tags = [(''p1'', ''t1'')]\<rparr>"

definition only_id :: "string \<Rightarrow> UpdatePostInput" where
  \<comment> \<open>the partial input \<^verbatim>\<open>{ id }\<close> that supplies no field\<close>
  "only_id i = \<lparr>UpdatePostInput.id = i, UpdatePostInput.title = None, UpdatePostInput.slug = None,
       UpdatePostInput.content = None, UpdatePostInput.excerpt = None,
       UpdatePostInput.cover_image = None, UpdatePostInput.published = None,
       UpdatePostInput.featured = None, UpdatePostInput.reading_time = None,
       UpdatePostInput.author_id = None, UpdatePostInput.categories = None,
       UpdatePostInput.tags = None\<rparr>"

definition second_post :: CreatePostInput where
  "second_post = \<lparr>CreatePostInput.title = ''Second'', CreatePostInput.slug = ''second'',
       CreatePostInput.content = ''one two three'', CreatePostInput.excerpt = None,
       CreatePostInput.cover_image = None, CreatePostInput.published = None,
       CreatePostInput.featured = None, CreatePostInput.reading_time = None,
       CreatePostInput.author_id = ''u1'', CreatePostInput.categories = None,
       CreatePostInput.tags = None\<rparr>"

section \<open>Properties\<close>

subsection \<open>The statements\<close>

lemma SET_updates_of:
  "SET (updates_of crt now1 now2 input) p =
     p\<lparr> Post.title := (case UpdatePostInput.title input of None \<Rightarrow> Post.title p | Some v \<Rightarrow> v),
        Post.slug := (case UpdatePostInput.slug input of None \<Rightarrow> Post.slug p | Some v \<Rightarrow> v),
        Post.content := (case UpdatePostInput.content input of None \<Rightarrow> Post.content p | Some v \<Rightarrow> v),
        Post.excerpt := (case UpdatePostInput.excerpt input of None \<Rightarrow> Post.excerpt p | Some v \<Rightarrow> Some v),
        Post.cover_image := (case UpdatePostInput.cover_image input of None \<Rightarrow> Post.cover_image p | Some v \<Rightarrow> Some v),
        Post.published := (case UpdatePostInput.published input of None \<Rightarrow> Post.published p | Some b \<Rightarrow> flag b),
        Post.featured := (case UpdatePostInput.featured input of None \<Rightarrow> Post.featured p | Some b \<Rightarrow> flag b),
        Post.reading_time := (case UpdatePostInput.content input of None \<Rightarrow> Post.reading_time p | Some v \<Rightarrow> crt v),
        Post.updated_at := now2,
        Post.published_at := (if UpdatePostInput.published input = Some True then Some now1 else Post.published_at p) \<rparr>"
  by (simp add: updates_of_def SET_def split: option.splits)

lemma assign_id: "Post.id (assign a p) = Post.id p"
  by (cases a) simp_all

lemma SET_id: "Post.id (SET us p) = Post.id p"
  unfolding SET_def by (induction us arbitrary: p) (simp_all add: assign_id)

lemma find_map_at_key:
  assumes "\<And>p. key (f p) = key p"
  shows "find (\<lambda>p. key p = k) (map (\<lambda>p. if key p = k then f p else p) xs)
           = map_option f (find (\<lambda>p. key p = k) xs)"
  by (induction xs) (simp_all add: assms)

lemma find_map_other_key:
  assumes "\<And>p. key (f p) = key p" and "k' \<noteq> k"
  shows "find (\<lambda>p. key p = k') (map (\<lambda>p. if key p = k then f p else p) xs)
           = find (\<lambda>p. key p = k') xs"
  using assms(2) by (induction xs) (auto simp: assms(1))

lemma UPDATE_posts_Inl: "UPDATE_posts us i db = Inl e \<Longrightarrow> e = SQLITE_CONSTRAINT_UNIQUE"
  by (simp add: UPDATE_posts_def split: if_splits)

lemma UPDATE_posts_get:
  "UPDATE_posts us i db = Inr db1 \<Longrightarrow> posts_get i db1 = map_option (SET us) (posts_get i db)"
  by (auto simp: UPDATE_posts_def posts_get_def find_map_at_key SET_id split: if_splits)

lemma UPDATE_posts_get_other:
  "UPDATE_posts us i db = Inr db1 \<Longrightarrow> j \<noteq> i \<Longrightarrow> posts_get j db1 = posts_get j db"
  by (auto simp: UPDATE_posts_def posts_get_def find_map_other_key SET_id split: if_splits)

lemma UPDATE_posts_ids:
  "UPDATE_posts us i db = Inr db1 \<Longrightarrow> map Post.id (posts db1) = map Post.id (posts db)"
  by (auto simp: UPDATE_posts_def SET_id split: if_splits)

lemma UPDATE_posts_frame:
  "UPDATE_posts us i db = Inr db1 \<Longrightarrow>
     users db1 = users db \<and> database.categories db1 = database.categories db
     \<and> database.tags db1 = database.tags db \<and> post_categories db1 = post_categories db
     \<and> post_tags db1 = post_tags db"
  by (auto simp: UPDATE_posts_def split: if_splits)

lemma UPDATE_posts_absent:
  "posts_get i db = None \<Longrightarrow> UPDATE_posts us i db = Inr db"
proof -
  assume "posts_get i db = None"
  then have no: "\<forall>p \<in> set (posts db). Post.id p \<noteq> i"
    by (simp add: posts_get_def find_None_iff)
  then have "map (\<lambda>p. if Post.id p = i then SET us p else p) (posts db) = posts db"
    by (simp add: map_idI)
  with no show ?thesis by (simp add: UPDATE_posts_def)
qed

lemma insert_categories_frame:
  "insert_categories i cs db = (db', r) \<Longrightarrow>
     users db' = users db \<and> posts db' = posts db \<and> database.categories db' = database.categories db
     \<and> database.tags db' = database.tags db \<and> post_tags db' = post_tags db"
  by (induction cs arbitrary: db)
     (auto simp: INSERT_INTO_post_categories_def split: sum.splits if_splits)

lemma insert_categories_None:
  "insert_categories i cs db = (db', None) \<Longrightarrow>
     post_categories db' = post_categories db @ map (Pair i) cs"
  by (induction cs arbitrary: db)
     (auto simp: INSERT_INTO_post_categories_def split: sum.splits if_splits)

lemma insert_categories_rows:
  "insert_categories i cs db = (db', r) \<Longrightarrow>
     \<exists>done. post_categories db' = post_categories db @ map (Pair i) done"
proof (induction cs arbitrary: db)
  case Nil
  then show ?case by simp
next
  case (Cons c cs)
  show ?case
  proof (cases "INSERT_INTO_post_categories i c db")
    case (Inl e)
    with Cons.prems show ?thesis by simp
  next
    case (Inr db1)
    then have 1: "post_categories db1 = post_categories db @ [(i, c)]"
      by (auto simp: INSERT_INTO_post_categories_def split: if_splits)
    from Cons.prems Inr have "insert_categories i cs db1 = (db', r)" by simp
    from Cons.IH[OF this] obtain d where "post_categories db' = post_categories db1 @ map (Pair i) d"
      by blast
    with 1 have "post_categories db' = post_categories db @ map (Pair i) (c # d)" by simp
    then show ?thesis by blast
  qed
qed

lemma insert_categories_succeeds:
  "distinct cs \<Longrightarrow> i \<in> Post.id ` set (posts db)
   \<Longrightarrow> set cs \<subseteq> Category.id ` set (database.categories db)
   \<Longrightarrow> \<forall>c \<in> set cs. (i, c) \<notin> set (post_categories db)
   \<Longrightarrow> snd (insert_categories i cs db) = None"
proof (induction cs arbitrary: db)
  case Nil
  then show ?case by simp
next
  case (Cons c cs)
  let ?db1 = "db\<lparr>post_categories := post_categories db @ [(i, c)]\<rparr>"
  from Cons.prems have ins: "INSERT_INTO_post_categories i c db = Inr ?db1"
    by (simp add: INSERT_INTO_post_categories_def)
  from Cons.prems have "snd (insert_categories i cs ?db1) = None"
    by (intro Cons.IH) auto
  with ins show ?case by simp
qed

lemma insert_tags_frame:
  "insert_tags i cs db = (db', r) \<Longrightarrow>
     users db' = users db \<and> posts db' = posts db \<and> database.categories db' = database.categories db
     \<and> database.tags db' = database.tags db \<and> post_categories db' = post_categories db"
  by (induction cs arbitrary: db)
     (auto simp: INSERT_INTO_post_tags_def split: sum.splits if_splits)

lemma insert_tags_None:
  "insert_tags i cs db = (db', None) \<Longrightarrow>
     post_tags db' = post_tags db @ map (Pair i) cs"
  by (induction cs arbitrary: db)
     (auto simp: INSERT_INTO_post_tags_def split: sum.splits if_splits)

lemma insert_tags_rows:
  "insert_tags i cs db = (db', r) \<Longrightarrow>
     \<exists>done. post_tags db' = post_tags db @ map (Pair i) done"
proof (induction cs arbitrary: db)
  case Nil
  then show ?case by simp
next
  case (Cons c cs)
  show ?case
  proof (cases "INSERT_INTO_post_tags i c db")
    case (Inl e)
    with Cons.prems show ?thesis by simp
  next
    case (Inr db1)
    then have 1: "post_tags db1 = post_tags db @ [(i, c)]"
      by (auto simp: INSERT_INTO_post_tags_def split: if_splits)
    from Cons.prems Inr have "insert_tags i cs db1 = (db', r)" by simp
    from Cons.IH[OF this] obtain d where "post_tags db' = post_tags db1 @ map (Pair i) d"
      by blast
    with 1 have "post_tags db' = post_tags db @ map (Pair i) (c # d)" by simp
    then show ?thesis by blast
  qed
qed

lemma insert_tags_succeeds:
  "distinct cs \<Longrightarrow> i \<in> Post.id ` set (posts db)
   \<Longrightarrow> set cs \<subseteq> Tag.id ` set (database.tags db)
   \<Longrightarrow> \<forall>c \<in> set cs. (i, c) \<notin> set (post_tags db)
   \<Longrightarrow> snd (insert_tags i cs db) = None"
proof (induction cs arbitrary: db)
  case Nil
  then show ?case by simp
next
  case (Cons c cs)
  let ?db1 = "db\<lparr>post_tags := post_tags db @ [(i, c)]\<rparr>"
  from Cons.prems have ins: "INSERT_INTO_post_tags i c db = Inr ?db1"
    by (simp add: INSERT_INTO_post_tags_def)
  from Cons.prems have "snd (insert_tags i cs ?db1) = None"
    by (intro Cons.IH) auto
  with ins show ?case by simp
qed

subsection \<open>Replacing the associations of a post\<close>

lemma update_categories_frame:
  "update_categories cats i db = (db', r) \<Longrightarrow>
     users db' = users db \<and> posts db' = posts db \<and> database.categories db' = database.categories db
     \<and> database.tags db' = database.tags db \<and> post_tags db' = post_tags db"
  by (cases cats)
     (auto simp: update_categories_def DELETE_FROM_post_categories_def Let_def
           dest!: insert_categories_frame split: if_splits)

lemma update_categories_absent:
  "update_categories None i db = (db, None)"
  by (simp add: update_categories_def)

lemma update_categories_replaced:
  assumes "update_categories (Some cs) i db = (db', None)"
  shows "category_ids_of i db' = cs"
proof (cases "cs = []")
  case True
  with assms have "db' = DELETE_FROM_post_categories i db"
    by (simp add: update_categories_def)
  with True show ?thesis
    by (simp add: DELETE_FROM_post_categories_def category_ids_of_def filter_empty_conv)
next
  case False
  let ?db1 = "DELETE_FROM_post_categories i db"
  from assms False have "insert_categories i cs ?db1 = (db', None)"
    by (simp add: update_categories_def Let_def)
  then have "post_categories db' = post_categories ?db1 @ map (Pair i) cs"
    by (rule insert_categories_None)
  then show ?thesis
    by (simp add: category_ids_of_def DELETE_FROM_post_categories_def comp_def)
qed

lemma update_categories_others:
  assumes "update_categories cats i db = (db', r)" and "j \<noteq> i"
  shows "category_ids_of j db' = category_ids_of j db"
proof (cases cats)
  case None
  with assms show ?thesis by (simp add: update_categories_def)
next
  case (Some cs)
  let ?db1 = "DELETE_FROM_post_categories i db"
  have del: "category_ids_of j ?db1 = category_ids_of j db"
    using assms(2)
    by (simp add: category_ids_of_def DELETE_FROM_post_categories_def)
       (metis (mono_tags, lifting) filter_cong)
  show ?thesis
  proof (cases "cs = []")
    case True
    with assms Some del show ?thesis by (simp add: update_categories_def)
  next
    case False
    with assms Some have "insert_categories i cs ?db1 = (db', r)"
      by (simp add: update_categories_def Let_def)
    then obtain d where "post_categories db' = post_categories ?db1 @ map (Pair i) d"
      using insert_categories_rows by blast
    then have "category_ids_of j db' = category_ids_of j ?db1"
      using assms(2) by (simp add: category_ids_of_def comp_def)
    with del show ?thesis by simp
  qed
qed

lemma update_categories_succeeds:
  assumes "distinct cs" and "i \<in> Post.id ` set (posts db)"
    and "set cs \<subseteq> Category.id ` set (database.categories db)"
  shows "snd (update_categories (Some cs) i db) = None"
proof (cases "cs = []")
  case True
  then show ?thesis by (simp add: update_categories_def)
next
  case False
  let ?db1 = "DELETE_FROM_post_categories i db"
  have "snd (insert_categories i cs ?db1) = None"
    using assms by (intro insert_categories_succeeds) (auto simp: DELETE_FROM_post_categories_def)
  with False show ?thesis by (simp add: update_categories_def Let_def)
qed

lemma update_categories_tag_ids:
  "update_categories cats i db = (db', r) \<Longrightarrow> tag_ids_of j db' = tag_ids_of j db"
  by (drule update_categories_frame) (simp add: tag_ids_of_def)

lemma update_categories_posts_get:
  "update_categories cats i db = (db', r) \<Longrightarrow> posts_get j db' = posts_get j db"
  by (drule update_categories_frame) (simp add: posts_get_def)

lemma update_tags_frame:
  "update_tags tgs i db = (db', r) \<Longrightarrow>
     users db' = users db \<and> posts db' = posts db \<and> database.categories db' = database.categories db
     \<and> database.tags db' = database.tags db \<and> post_categories db' = post_categories db"
  by (cases tgs)
     (auto simp: update_tags_def DELETE_FROM_post_tags_def Let_def
           dest!: insert_tags_frame split: if_splits)

lemma update_tags_absent:
  "update_tags None i db = (db, None)"
  by (simp add: update_tags_def)

lemma update_tags_replaced:
  assumes "update_tags (Some cs) i db = (db', None)"
  shows "tag_ids_of i db' = cs"
proof (cases "cs = []")
  case True
  with assms have "db' = DELETE_FROM_post_tags i db"
    by (simp add: update_tags_def)
  with True show ?thesis
    by (simp add: DELETE_FROM_post_tags_def tag_ids_of_def filter_empty_conv)
next
  case False
  let ?db1 = "DELETE_FROM_post_tags i db"
  from assms False have "insert_tags i cs ?db1 = (db', None)"
    by (simp add: update_tags_def Let_def)
  then have "post_tags db' = post_tags ?db1 @ map (Pair i) cs"
    by (rule insert_tags_None)
  then show ?thesis
    by (simp add: tag_ids_of_def DELETE_FROM_post_tags_def comp_def)
qed

lemma update_tags_others:
  assumes "update_tags tgs i db = (db', r)" and "j \<noteq> i"
  shows "tag_ids_of j db' = tag_ids_of j db"
proof (cases tgs)
  case None
  with assms show ?thesis by (simp add: update_tags_def)
next
  case (Some cs)
  let ?db1 = "DELETE_FROM_post_tags i db"
  have del: "tag_ids_of j ?db1 = tag_ids_of j db"
    using assms(2)
    by (simp add: tag_ids_of_def DELETE_FROM_post_tags_def)
       (metis (mono_tags, lifting) filter_cong)
  show ?thesis
  proof (cases "cs = []")
    case True
    with assms Some del show ?thesis by (simp add: update_tags_def)
  next
    case False
    with assms Some have "insert_tags i cs ?db1 = (db', r)"
      by (simp add: update_tags_def Let_def)
    then obtain d where "post_tags db' = post_tags ?db1 @ map (Pair i) d"
      using insert_tags_rows by blast
    then have "tag_ids_of j db' = tag_ids_of j ?db1"
      using assms(2) by (simp add: tag_ids_of_def comp_def)
    with del show ?thesis by simp
  qed
qed

lemma update_tags_succeeds:
  assumes "distinct cs" and "i \<in> Post.id ` set (posts db)"
    and "set cs \<subseteq> Tag.id ` set (database.tags db)"
  shows "snd (update_tags (Some cs) i db) = None"
proof (cases "cs = []")
  case True
  then show ?thesis by (simp add: update_tags_def)
next
  case False
  let ?db1 = "DELETE_FROM_post_tags i db"
  have "snd (insert_tags i cs ?db1) = None"
    using assms by (intro insert_tags_succeeds) (auto simp: DELETE_FROM_post_tags_def)
  with False show ?thesis by (simp add: update_tags_def Let_def)
qed

lemma update_tags_category_ids:
  "update_tags tgs i db = (db', r) \<Longrightarrow> category_ids_of j db' = category_ids_of j db"
  by (drule update_tags_frame) (simp add: category_ids_of_def)

lemma update_tags_posts_get:
  "update_tags tgs i db = (db', r) \<Longrightarrow> posts_get j db' = posts_get j db"
  by (drule update_tags_frame) (simp add: posts_get_def)

subsection \<open>The stages of an update\<close>

lemma postService_update_stages:
  assumes "postService_update crt now1 now2 input db = (db', res)"
  obtains
    (row_rejected) e where
      "UPDATE_posts (updates_of crt now1 now2 input) (UpdatePostInput.id input) db = Inl e"
      "db' = db" "res = Inl e"
  | (categories_rejected) db1 e where
      "UPDATE_posts (updates_of crt now1 now2 input) (UpdatePostInput.id input) db = Inr db1"
      "update_categories (UpdatePostInput.categories input) (UpdatePostInput.id input) db1 = (db', Some e)"
      "res = Inl e"
  | (tags_rejected) db1 db2 e where
      "UPDATE_posts (updates_of crt now1 now2 input) (UpdatePostInput.id input) db = Inr db1"
      "update_categories (UpdatePostInput.categories input) (UpdatePostInput.id input) db1 = (db2, None)"
      "update_tags (UpdatePostInput.tags input) (UpdatePostInput.id input) db2 = (db', Some e)"
      "res = Inl e"
  | (completed) db1 db2 where
      "UPDATE_posts (updates_of crt now1 now2 input) (UpdatePostInput.id input) db = Inr db1"
      "update_categories (UpdatePostInput.categories input) (UpdatePostInput.id input) db1 = (db2, None)"
      "update_tags (UpdatePostInput.tags input) (UpdatePostInput.id input) db2 = (db', None)"
      "res = Inr (postService_findById (UpdatePostInput.id input) db')"
  using assms unfolding postService_update_def
  by (auto split: sum.splits prod.splits option.splits)

text \<open>The stored row after an update, whatever the outcome: the old row when the row
  statement was rejected, the rewritten row otherwise.\<close>

lemma postService_update_row:
  assumes "postService_update crt now1 now2 input db = (db', res)"
    and "posts_get (UpdatePostInput.id input) db = Some p"
  shows "posts_get (UpdatePostInput.id input) db' = Some p
           \<and> UPDATE_posts (updates_of crt now1 now2 input) (UpdatePostInput.id input) db
               = Inl SQLITE_CONSTRAINT_UNIQUE \<and> db' = db
         \<or> posts_get (UpdatePostInput.id input) db' = Some (SET (updates_of crt now1 now2 input) p)
           \<and> (\<exists>db1. UPDATE_posts (updates_of crt now1 now2 input) (UpdatePostInput.id input) db = Inr db1)"
  using assms(1)
proof (cases rule: postService_update_stages)
  case (row_rejected e)
  with assms(2) show ?thesis by (auto dest: UPDATE_posts_Inl)
next
  case (categories_rejected db1 e)
  have "posts_get (UpdatePostInput.id input) db' = posts_get (UpdatePostInput.id input) db1"
    using categories_rejected(2) by (rule update_categories_posts_get)
  with categories_rejected(1) assms(2) show ?thesis
    by (auto dest!: UPDATE_posts_get)
next
  case (tags_rejected db1 db2 e)
  have "posts_get (UpdatePostInput.id input) db2 = posts_get (UpdatePostInput.id input) db1"
    using tags_rejected(2) by (rule update_categories_posts_get)
  moreover have "posts_get (UpdatePostInput.id input) db' = posts_get (UpdatePostInput.id input) db2"
    using tags_rejected(3) by (rule update_tags_posts_get)
  ultimately show ?thesis
    using tags_rejected(1) assms(2) by (auto dest!: UPDATE_posts_get)
next
  case (completed db1 db2)
  have "posts_get (UpdatePostInput.id input) db2 = posts_get (UpdatePostInput.id input) db1"
    using completed(2) by (rule update_categories_posts_get)
  moreover have "posts_get (UpdatePostInput.id input) db' = posts_get (UpdatePostInput.id input) db2"
    using completed(3) by (rule update_tags_posts_get)
  ultimately show ?thesis
    using completed(1) assms(2) by (auto dest!: UPDATE_posts_get)
qed

lemma postService_update_Inr:
  assumes "postService_update crt now1 now2 input db = (db', Inr r)"
  obtains db1 db2 where
      "UPDATE_posts (updates_of crt now1 now2 input) (UpdatePostInput.id input) db = Inr db1"
      "update_categories (UpdatePostInput.categories input) (UpdatePostInput.id input) db1 = (db2, None)"
      "update_tags (UpdatePostInput.tags input) (UpdatePostInput.id input) db2 = (db', None)"
      "r = postService_findById (UpdatePostInput.id input) db'"
  using assms by (cases rule: postService_update_stages) auto

lemma postService_update_category_ids_absent:
  assumes "postService_update crt now1 now2 input db = (db', res)"
    and "UpdatePostInput.categories input = None"
  shows "category_ids_of j db' = category_ids_of j db"
  using assms(1)
proof (cases rule: postService_update_stages)
  case (row_rejected e)
  then show ?thesis by simp
next
  case (categories_rejected db1 e)
  with assms(2) show ?thesis by (simp add: update_categories_def)
next
  case (tags_rejected db1 db2 e)
  with assms(2) have "db2 = db1" by (simp add: update_categories_def)
  with tags_rejected show ?thesis
    by (auto dest!: UPDATE_posts_frame update_tags_category_ids simp: category_ids_of_def)
next
  case (completed db1 db2)
  with assms(2) have "db2 = db1" by (simp add: update_categories_def)
  with completed show ?thesis
    by (auto dest!: UPDATE_posts_frame update_tags_category_ids simp: category_ids_of_def)
qed

lemma postService_update_tag_ids_absent:
  assumes "postService_update crt now1 now2 input db = (db', res)"
    and "UpdatePostInput.tags input = None"
  shows "tag_ids_of j db' = tag_ids_of j db"
  using assms(1)
proof (cases rule: postService_update_stages)
  case (row_rejected e)
  then show ?thesis by simp
next
  case (categories_rejected db1 e)
  then show ?thesis
    by (auto dest!: UPDATE_posts_frame update_categories_tag_ids simp: tag_ids_of_def)
next
  case (tags_rejected db1 db2 e)
  with assms(2) show ?thesis by (simp add: update_tags_def)
next
  case (completed db1 db2)
  with assms(2) have "db' = db2" by (simp add: update_tags_def)
  with completed show ?thesis
    by (auto dest!: UPDATE_posts_frame update_categories_tag_ids simp: tag_ids_of_def)
qed

lemma posts_get_findById:
  "postService_findById i db = map_option (\<lambda>p. with_relations p db) (posts_get i db)"
  by (simp add: postService_findById_def posts_get_def split: option.splits)

subsection \<open>When an update is accepted\<close>

lemma slug_taken_own:
  assumes "distinct (map Post.slug (posts db))" and "p \<in> set (posts db)"
  shows "\<not> slug_taken (Post.slug p) (Post.id p) db"
proof
  assume "slug_taken (Post.slug p) (Post.id p) db"
  then obtain q where q: "q \<in> set (posts db)" "Post.id q \<noteq> Post.id p" "Post.slug q = Post.slug p"
    by (auto simp: slug_taken_def)
  from assms(1) have "inj_on Post.slug (set (posts db))"
    by (simp add: distinct_map)
  with q(1,3) assms(2) have "q = p" by (auto dest: inj_onD)
  with q(2) show False by simp
qed

lemma UPDATE_posts_accepted:
  assumes "distinct (map Post.slug (posts db))"
    and "\<forall>v. UpdatePostInput.slug input = Some v \<longrightarrow> \<not> slug_taken v (UpdatePostInput.id input) db"
  shows "\<exists>db1. UPDATE_posts (updates_of crt now1 now2 input) (UpdatePostInput.id input) db = Inr db1"
proof -
  have "\<not> slug_taken (Post.slug (SET (updates_of crt now1 now2 input) p)) (UpdatePostInput.id input) db"
    if "p \<in> set (posts db)" "Post.id p = UpdatePostInput.id input" for p
  proof (cases "UpdatePostInput.slug input")
    case None
    then have "Post.slug (SET (updates_of crt now1 now2 input) p) = Post.slug p"
      by (simp add: SET_updates_of)
    with slug_taken_own[OF assms(1) that(1)] that(2) show ?thesis by simp
  next
    case (Some v)
    then have "Post.slug (SET (updates_of crt now1 now2 input) p) = v"
      by (simp add: SET_updates_of)
    with assms(2) Some show ?thesis by simp
  qed
  then show ?thesis by (auto simp: UPDATE_posts_def)
qed

lemma posts_get_Some_id: "posts_get i db = Some p \<Longrightarrow> i \<in> Post.id ` set (posts db)"
  by (auto simp: posts_get_def find_Some_iff)

lemma postService_update_succeeds:
  assumes ex: "posts_get (UpdatePostInput.id input) db = Some p"
    and slugs: "distinct (map Post.slug (posts db))"
    and free: "\<forall>v. UpdatePostInput.slug input = Some v \<longrightarrow> \<not> slug_taken v (UpdatePostInput.id input) db"
    and cats: "\<forall>cs. UpdatePostInput.categories input = Some cs \<longrightarrow>
                 distinct cs \<and> set cs \<subseteq> Category.id ` set (database.categories db)"
    and tgs: "\<forall>ts. UpdatePostInput.tags input = Some ts \<longrightarrow>
                 distinct ts \<and> set ts \<subseteq> Tag.id ` set (database.tags db)"
  shows "\<exists>db' r. postService_update crt now1 now2 input db = (db', Inr (Some r))"
proof -
  let ?i = "UpdatePostInput.id input"
  from UPDATE_posts_accepted[OF slugs free] obtain db1 where
    u: "UPDATE_posts (updates_of crt now1 now2 input) ?i db = Inr db1" by blast
  have ids1: "?i \<in> Post.id ` set (posts db1)"
    using posts_get_Some_id[OF ex] UPDATE_posts_ids[OF u] by (metis set_map)
  have fr1: "database.categories db1 = database.categories db" "database.tags db1 = database.tags db"
    using UPDATE_posts_frame[OF u] by simp_all
  obtain db2 r2 where c: "update_categories (UpdatePostInput.categories input) ?i db1 = (db2, r2)"
    by (cases "update_categories (UpdatePostInput.categories input) ?i db1")
  have r2: "r2 = None"
  proof (cases "UpdatePostInput.categories input")
    case None
    with c show ?thesis by (simp add: update_categories_def)
  next
    case (Some cs)
    with cats fr1 ids1 have "snd (update_categories (Some cs) ?i db1) = None"
      by (intro update_categories_succeeds) auto
    with c Some show ?thesis by simp
  qed
  have fr2: "posts db2 = posts db1" "database.tags db2 = database.tags db1"
    using update_categories_frame[OF c] by simp_all
  obtain db3 r3 where t: "update_tags (UpdatePostInput.tags input) ?i db2 = (db3, r3)"
    by (cases "update_tags (UpdatePostInput.tags input) ?i db2")
  have r3: "r3 = None"
  proof (cases "UpdatePostInput.tags input")
    case None
    with t show ?thesis by (simp add: update_tags_def)
  next
    case (Some ts)
    with tgs fr1 fr2 ids1 have "snd (update_tags (Some ts) ?i db2) = None"
      by (intro update_tags_succeeds) auto
    with t Some show ?thesis by simp
  qed
  have g: "posts_get ?i db3 = Some (SET (updates_of crt now1 now2 input) p)"
    using UPDATE_posts_get[OF u] update_categories_posts_get[OF c, of ?i]
      update_tags_posts_get[OF t, of ?i] ex by simp
  have "postService_update crt now1 now2 input db = (db3, Inr (postService_findById ?i db3))"
    using u c t r2 r3 by (simp add: postService_update_def)
  with g show ?thesis by (simp add: posts_get_findById)
qed

subsection \<open>Evaluation on the example data\<close>

lemmas example_defs = db0_def hello_def draft_def admin_def tech_def life_def nextjs_def only_id_def

lemmas update_defs = postService_update_def UPDATE_posts_def slug_taken_def updates_of_def SET_def
  update_categories_def update_tags_def DELETE_FROM_post_categories_def DELETE_FROM_post_tags_def
  INSERT_INTO_post_categories_def INSERT_INTO_post_tags_def postService_findById_def
  with_relations_def userService_findById_def categoryService_findByPostId_def
  tagService_findByPostId_def flag_def posts_get_def category_ids_of_def tag_ids_of_def

lemma db0_p1: "posts_get ''p1'' db0 = Some hello"
  by (simp add: posts_get_def db0_def hello_def)

section \<open>The claims about \<^verbatim>\<open>postService.update\<close>\<close>

text \<open>
  C1 (as amended). For an existing post, whenever \<^verbatim>\<open>update\<close> completes without a
  constraint failure, a supplied \<^verbatim>\<open>categories\<close> (resp. \<^verbatim>\<open>tags\<close>) array, the empty one
  included, replaces the post's associations: the junction rows of the post are exactly
  the supplied ids, in order, so \<^verbatim>\<open>[]\<close> removes them all. The update does complete when
  slugs are unique, a supplied slug is not another post's, and the supplied ids are
  distinct and name existing categories (resp. tags). As stated, for every input, the
  claim fails: an id that names no category makes the insert throw after the delete.
\<close>

theorem update_replaces_associations:
  assumes "posts_get (UpdatePostInput.id input) db = Some p"
  shows "(postService_update crt pnow unow input db = (db', Inr r) \<longrightarrow>
            (\<forall>cs. UpdatePostInput.categories input = Some cs
                \<longrightarrow> category_ids_of (UpdatePostInput.id input) db' = cs)
          \<and> (\<forall>ts. UpdatePostInput.tags input = Some ts
                \<longrightarrow> tag_ids_of (UpdatePostInput.id input) db' = ts))
       \<and> (distinct (map Post.slug (posts db))
          \<and> (\<forall>v. UpdatePostInput.slug input = Some v
                \<longrightarrow> \<not> slug_taken v (UpdatePostInput.id input) db)
          \<and> (\<forall>cs. UpdatePostInput.categories input = Some cs
                \<longrightarrow> distinct cs \<and> set cs \<subseteq> Category.id ` set (database.categories db))
          \<and> (\<forall>ts. UpdatePostInput.tags input = Some ts
                \<longrightarrow> distinct ts \<and> set ts \<subseteq> Tag.id ` set (database.tags db))
          \<longrightarrow> (\<exists>db'' r'. postService_update crt pnow unow input db = (db'', Inr (Some r'))))"
proof (intro conjI impI allI)
  fix cs
  assume u: "postService_update crt pnow unow input db = (db', Inr r)"
    and c: "UpdatePostInput.categories input = Some cs"
  from u obtain db1 db2 where
    1: "update_categories (UpdatePostInput.categories input) (UpdatePostInput.id input) db1 = (db2, None)"
    and 2: "update_tags (UpdatePostInput.tags input) (UpdatePostInput.id input) db2 = (db', None)"
    by (rule postService_update_Inr)
  from 1 c have "category_ids_of (UpdatePostInput.id input) db2 = cs"
    by (simp add: update_categories_replaced)
  with update_tags_category_ids[OF 2]
  show "category_ids_of (UpdatePostInput.id input) db' = cs" by simp
next
  fix ts
  assume u: "postService_update crt pnow unow input db = (db', Inr r)"
    and t: "UpdatePostInput.tags input = Some ts"
  from u obtain db2 where
    "update_tags (UpdatePostInput.tags input) (UpdatePostInput.id input) db2 = (db', None)"
    by (rule postService_update_Inr)
  with t show "tag_ids_of (UpdatePostInput.id input) db' = ts"
    by (simp add: update_tags_replaced)
next
  assume "distinct (map Post.slug (posts db))
          \<and> (\<forall>v. UpdatePostInput.slug input = Some v
                \<longrightarrow> \<not> slug_taken v (UpdatePostInput.id input) db)
          \<and> (\<forall>cs. UpdatePostInput.categories input = Some cs
                \<longrightarrow> distinct cs \<and> set cs \<subseteq> Category.id ` set (database.categories db))
          \<and> (\<forall>ts. UpdatePostInput.tags input = Some ts
                \<longrightarrow> distinct ts \<and> set ts \<subseteq> Tag.id ` set (database.tags db))"
  with assms show "\<exists>db'' r'. postService_update crt pnow unow input db = (db'', Inr (Some r'))"
    by (intro postService_update_succeeds) blast+
qed

theorem update_replaces_associations_witness:
  "posts_get ''p1'' db0 = Some hello
   \<and> (\<exists>db' r. postService_update calculateReadingTime ''2024-06-01T10:00:00.000Z''
                ''2024-06-01T10:00:00.001Z''
                ((only_id ''p1'')\<lparr>UpdatePostInput.categories := Some [''c2'', ''c1''],
                                   UpdatePostInput.tags := Some []\<rparr>) db0 = (db', Inr (Some r))
        \<and> category_ids_of ''p1'' db' = [''c2'', ''c1''] \<and> tag_ids_of ''p1'' db' = [])"
proof -
  let ?input = "(only_id ''p1'')\<lparr>UpdatePostInput.categories := Some [''c2'', ''c1''],
                                  UpdatePostInput.tags := Some []\<rparr>"
  let ?run = "postService_update calculateReadingTime ''2024-06-01T10:00:00.000Z''
                ''2024-06-01T10:00:00.001Z'' ?input db0"
  have h: "posts_get (UpdatePostInput.id ?input) db0 = Some hello"
    by (simp add: db0_p1 only_id_def)
  have pre: "distinct (map Post.slug (posts db0))
          \<and> (\<forall>v. UpdatePostInput.slug ?input = Some v
                \<longrightarrow> \<not> slug_taken v (UpdatePostInput.id ?input) db0)
          \<and> (\<forall>cs. UpdatePostInput.categories ?input = Some cs
                \<longrightarrow> distinct cs \<and> set cs \<subseteq> Category.id ` set (database.categories db0))
          \<and> (\<forall>ts. UpdatePostInput.tags ?input = Some ts
                \<longrightarrow> distinct ts \<and> set ts \<subseteq> Tag.id ` set (database.tags db0))"
    by (simp add: example_defs)
  note inst = update_replaces_associations[OF h, where crt = calculateReadingTime
      and pnow = "''2024-06-01T10:00:00.000Z''" and unow = "''2024-06-01T10:00:00.001Z''"]
  from inst pre obtain db' r where run: "?run = (db', Inr (Some r))" by blast
  from inst[of db' "Some r"] run
  have "category_ids_of ''p1'' db' = [''c2'', ''c1''] \<and> tag_ids_of ''p1'' db' = []"
    by (simp add: only_id_def)
  with run db0_p1 show ?thesis by blast
qed

theorem update_replaces_associations_counterexample:
  "posts_get ''p1'' db0 = Some hello
   \<and> UpdatePostInput.categories ((only_id ''p1'')\<lparr>UpdatePostInput.categories := Some [''zz'']\<rparr>)
       = Some [''zz'']
   \<and> snd (postService_update calculateReadingTime ''2024-06-01T10:00:00.000Z''
            ''2024-06-01T10:00:00.001Z''
            ((only_id ''p1'')\<lparr>UpdatePostInput.categories := Some [''zz'']\<rparr>) db0)
       = Inl SQLITE_CONSTRAINT_FOREIGNKEY
   \<and> category_ids_of ''p1''
        (fst (postService_update calculateReadingTime ''2024-06-01T10:00:00.000Z''
               ''2024-06-01T10:00:00.001Z''
               ((only_id ''p1'')\<lparr>UpdatePostInput.categories := Some [''zz'']\<rparr>) db0)) = []
   \<and> set (category_ids_of ''p1''
        (fst (postService_update calculateReadingTime ''2024-06-01T10:00:00.000Z''
               ''2024-06-01T10:00:00.001Z''
               ((only_id ''p1'')\<lparr>UpdatePostInput.categories := Some [''zz'']\<rparr>) db0)))
       \<noteq> set [''zz'']"
  by (simp add: update_defs example_defs)

text \<open>
  C2 (as amended). For an existing post, \<^verbatim>\<open>update\<close> stamps the publish time exactly when
  the input supplies \<^verbatim>\<open>published = true\<close> and the row statement is accepted, whatever
  the flag was before: re-publishing an already published post stamps it again. An
  update that supplies \<^verbatim>\<open>published = false\<close> or no \<^verbatim>\<open>published\<close> leaves the stored
  publish time as it was. As stated ("exactly when the flag transitions to true") the
  claim fails: the code does not read the stored flag.
\<close>

theorem update_stamps_publish_time:
  assumes "posts_get (UpdatePostInput.id input) db = Some p"
    and "postService_update crt pnow unow input db = (db', res)"
  shows "\<exists>p'. posts_get (UpdatePostInput.id input) db' = Some p'
           \<and> Post.published_at p' =
                (if UpdatePostInput.published input = Some True
                    \<and> UPDATE_posts (updates_of crt pnow unow input) (UpdatePostInput.id input) db
                        \<noteq> Inl SQLITE_CONSTRAINT_UNIQUE
                 then Some pnow else Post.published_at p)
           \<and> (\<forall>r. res = Inr r \<and> UpdatePostInput.published input = Some True
                  \<longrightarrow> Post.published_at p' = Some pnow)"
proof -
  from postService_update_row[OF assms(2,1)]
  consider "posts_get (UpdatePostInput.id input) db' = Some p"
      "UPDATE_posts (updates_of crt pnow unow input) (UpdatePostInput.id input) db
         = Inl SQLITE_CONSTRAINT_UNIQUE" "db' = db"
    | db1 where "posts_get (UpdatePostInput.id input) db' = Some (SET (updates_of crt pnow unow input) p)"
      "UPDATE_posts (updates_of crt pnow unow input) (UpdatePostInput.id input) db = Inr db1"
    by blast
  then show ?thesis
  proof cases
    case 1
    have "res \<noteq> Inr r" for r
      using assms(2) 1(2) by (auto simp: postService_update_def)
    with 1 show ?thesis by simp
  next
    case 2
    then show ?thesis by (simp add: SET_updates_of)
  qed
qed

theorem update_stamps_publish_time_witness:
  "posts_get ''p1'' db0 = Some hello
   \<and> (\<exists>p'. posts_get ''p1''
              (fst (postService_update calculateReadingTime ''2024-06-01T10:00:00.000Z''
                     ''2024-06-01T10:00:00.001Z''
                     ((only_id ''p1'')\<lparr>UpdatePostInput.published := Some True\<rparr>) db0)) = Some p'
          \<and> Post.published_at p' = Some ''2024-06-01T10:00:00.000Z'')"
proof -
  let ?input = "(only_id ''p1'')\<lparr>UpdatePostInput.published := Some True\<rparr>"
  have h: "posts_get (UpdatePostInput.id ?input) db0 = Some hello"
    by (simp add: db0_p1 only_id_def)
  have a: "UPDATE_posts (updates_of calculateReadingTime ''2024-06-01T10:00:00.000Z''
              ''2024-06-01T10:00:00.001Z'' ?input) (UpdatePostInput.id ?input) db0
            \<noteq> Inl SQLITE_CONSTRAINT_UNIQUE"
    by (simp add: update_defs example_defs)
  from update_stamps_publish_time[OF h surjective_pairing, where crt = calculateReadingTime
      and pnow = "''2024-06-01T10:00:00.000Z''" and unow = "''2024-06-01T10:00:00.001Z''"] a
  show ?thesis by (auto simp: db0_p1 only_id_def)
qed

theorem update_stamps_publish_time_counterexample:
  "map_option Post.published (posts_get ''p1'' db0) = Some 1
   \<and> map_option Post.published_at (posts_get ''p1'' db0) = Some (Some ''2024-01-02T00:00:00.000Z'')
   \<and> map_option Post.published_at
        (posts_get ''p1''
          (fst (postService_update calculateReadingTime ''2024-06-01T10:00:00.000Z''
                 ''2024-06-01T10:00:00.001Z''
                 ((only_id ''p1'')\<lparr>UpdatePostInput.published := Some True\<rparr>) db0)))
       = Some (Some ''2024-06-01T10:00:00.000Z'')"
  by (simp add: update_defs example_defs)

text \<open>
  C3 (as amended). For an existing post and whatever the outcome of the call, every stored
  column of the post row other than \<^verbatim>\<open>updated_at\<close> whose field is absent from the input
  keeps its value (\<^verbatim>\<open>reading_time\<close> follows \<^verbatim>\<open>content\<close>; \<^verbatim>\<open>published_at\<close> changes only
  when \<^verbatim>\<open>published = true\<close> is supplied, so it is kept also when \<^verbatim>\<open>published = false\<close>
  is; \<^verbatim>\<open>id\<close>, \<^verbatim>\<open>views\<close>, \<^verbatim>\<open>created_at\<close> and \<^verbatim>\<open>author_id\<close> are never
  written), and the associations of a post whose \<^verbatim>\<open>categories\<close> (\<^verbatim>\<open>tags\<close>) field is
  absent are unchanged. As stated the claim fails for \<^verbatim>\<open>updated_at\<close>, which no input
  field names and which every accepted update rewrites.
\<close>

theorem update_frame:
  assumes "posts_get (UpdatePostInput.id input) db = Some p"
    and "postService_update crt pnow unow input db = (db', res)"
  shows "\<exists>p'. posts_get (UpdatePostInput.id input) db' = Some p'
     \<and> Post.id p' = Post.id p \<and> Post.views p' = Post.views p
     \<and> Post.created_at p' = Post.created_at p \<and> Post.author_id p' = Post.author_id p
     \<and> (UpdatePostInput.title input = None \<longrightarrow> Post.title p' = Post.title p)
     \<and> (UpdatePostInput.slug input = None \<longrightarrow> Post.slug p' = Post.slug p)
     \<and> (UpdatePostInput.content input = None
          \<longrightarrow> Post.content p' = Post.content p \<and> Post.reading_time p' = Post.reading_time p)
     \<and> (UpdatePostInput.excerpt input = None \<longrightarrow> Post.excerpt p' = Post.excerpt p)
     \<and> (UpdatePostInput.cover_image input = None \<longrightarrow> Post.cover_image p' = Post.cover_image p)
     \<and> (UpdatePostInput.published input = None \<longrightarrow> Post.published p' = Post.published p)
     \<and> (UpdatePostInput.published input \<noteq> Some True
          \<longrightarrow> Post.published_at p' = Post.published_at p)
     \<and> (UpdatePostInput.featured input = None \<longrightarrow> Post.featured p' = Post.featured p)
     \<and> (UpdatePostInput.categories input = None
          \<longrightarrow> category_ids_of (UpdatePostInput.id input) db' = category_ids_of (UpdatePostInput.id input) db)
     \<and> (UpdatePostInput.tags input = None
          \<longrightarrow> tag_ids_of (UpdatePostInput.id input) db' = tag_ids_of (UpdatePostInput.id input) db)"
proof -
  have cats: "UpdatePostInput.categories input = None
      \<longrightarrow> category_ids_of (UpdatePostInput.id input) db' = category_ids_of (UpdatePostInput.id input) db"
    using postService_update_category_ids_absent[OF assms(2)] by blast
  have tgs: "UpdatePostInput.tags input = None
      \<longrightarrow> tag_ids_of (UpdatePostInput.id input) db' = tag_ids_of (UpdatePostInput.id input) db"
    using postService_update_tag_ids_absent[OF assms(2)] by blast
  from postService_update_row[OF assms(2,1)]
  consider "posts_get (UpdatePostInput.id input) db' = Some p"
    | "posts_get (UpdatePostInput.id input) db' = Some (SET (updates_of crt pnow unow input) p)"
    by blast
  then show ?thesis
  proof cases
    case 1
    with cats tgs show ?thesis by simp
  next
    case 2
    with cats tgs show ?thesis by (simp add: SET_updates_of)
  qed
qed

theorem update_frame_witness:
  "posts_get ''p1'' db0 = Some hello
   \<and> (\<exists>p'. posts_get ''p1''
              (fst (postService_update calculateReadingTime ''2024-06-01T10:00:00.000Z''
                     ''2024-06-01T10:00:00.001Z''
                     ((only_id ''p1'')\<lparr>UpdatePostInput.title := Some ''Hello again'',
                                        UpdatePostInput.published := Some False\<rparr>) db0)) = Some p'
          \<and> Post.slug p' = ''hello-world'' \<and> Post.content p' = ''Next steps''
          \<and> Post.reading_time p' = 1 \<and> Post.views p' = 0
          \<and> Post.published_at p' = Some ''2024-01-02T00:00:00.000Z'')
   \<and> category_ids_of ''p1''
        (fst (postService_update calculateReadingTime ''2024-06-01T10:00:00.000Z''
               ''2024-06-01T10:00:00.001Z''
               ((only_id ''p1'')\<lparr>UpdatePostInput.title := Some ''Hello again'',
                                        UpdatePostInput.published := Some False\<rparr>) db0)) = [''c1'']"
proof -
  let ?input = "(only_id ''p1'')\<lparr>UpdatePostInput.title := Some ''Hello again'',
                                        UpdatePostInput.published := Some False\<rparr>"
  have h: "posts_get (UpdatePostInput.id ?input) db0 = Some hello"
    by (simp add: db0_p1 only_id_def)
  have c: "category_ids_of ''p1'' db0 = [''c1'']"
    by (simp add: category_ids_of_def db0_def)
  from update_frame[OF h surjective_pairing, where crt = calculateReadingTime
      and pnow = "''2024-06-01T10:00:00.000Z''" and unow = "''2024-06-01T10:00:00.001Z''"]
  obtain p' where
    "posts_get ''p1'' (fst (postService_update calculateReadingTime ''2024-06-01T10:00:00.000Z''
        ''2024-06-01T10:00:00.001Z'' ?input db0)) = Some p'"
    "Post.slug p' = ''hello-world''" "Post.content p' = ''Next steps''"
    "Post.reading_time p' = 1" "Post.views p' = 0"
    "Post.published_at p' = Some ''2024-01-02T00:00:00.000Z''"
    "category_ids_of ''p1'' (fst (postService_update calculateReadingTime ''2024-06-01T10:00:00.000Z''
        ''2024-06-01T10:00:00.001Z'' ?input db0)) = [''c1'']"
    by (auto simp: only_id_def hello_def c)
  with db0_p1 show ?thesis by blast
qed

theorem update_frame_counterexample:
  "UpdatePostInput.title (only_id ''p1'') = None
   \<and> map_option Post.updated_at (posts_get ''p1'' db0) = Some ''2024-01-02 00:00:00''
   \<and> map_option Post.updated_at
        (posts_get ''p1''
          (fst (postService_update calculateReadingTime ''2024-06-01T10:00:00.000Z''
                 ''2024-06-01T10:00:00.001Z'' (only_id ''p1'') db0)))
       = Some ''2024-06-01T10:00:00.001Z''"
  by (simp add: update_defs example_defs)

text \<open>
  C10 (as amended). For an existing post id, every call whose row statement is accepted,
  which it is whenever slugs are unique and a supplied slug is not another post's, sets
  \<^verbatim>\<open>updated_at\<close> to the time of the call, whatever fields the input supplies. With no
  field at all the call succeeds and returns the old row with \<^verbatim>\<open>updated_at\<close> alone
  changed, so an empty partial update is not a no-op. As stated ("every call") the claim
  fails: a slug that collides makes the statement throw and the row keeps its stamp.
\<close>

theorem update_sets_updated_at:
  assumes "posts_get (UpdatePostInput.id input) db = Some p"
    and "postService_update crt pnow unow input db = (db', res)"
  shows "(UPDATE_posts (updates_of crt pnow unow input) (UpdatePostInput.id input) db
            \<noteq> Inl SQLITE_CONSTRAINT_UNIQUE
          \<longrightarrow> map_option Post.updated_at (posts_get (UpdatePostInput.id input) db') = Some unow)
       \<and> (distinct (map Post.slug (posts db))
           \<and> (\<forall>v. UpdatePostInput.slug input = Some v
                 \<longrightarrow> \<not> slug_taken v (UpdatePostInput.id input) db)
          \<longrightarrow> map_option Post.updated_at (posts_get (UpdatePostInput.id input) db') = Some unow)
       \<and> (distinct (map Post.slug (posts db)) \<and> input = only_id (UpdatePostInput.id input)
          \<longrightarrow> (\<exists>r. res = Inr (Some r) \<and> Post.updated_at r = unow
                    \<and> Post.truncate r = p\<lparr>Post.updated_at := unow\<rparr>))"
proof (intro conjI impI)
  let ?i = "UpdatePostInput.id input"
  let ?us = "updates_of crt pnow unow input"
  note row = postService_update_row[OF assms(2,1)]
  show 1: "map_option Post.updated_at (posts_get ?i db') = Some unow"
    if "UPDATE_posts ?us ?i db \<noteq> Inl SQLITE_CONSTRAINT_UNIQUE"
    using row that by (auto simp: SET_updates_of)
  show 2: "map_option Post.updated_at (posts_get ?i db') = Some unow"
    if "distinct (map Post.slug (posts db))
           \<and> (\<forall>v. UpdatePostInput.slug input = Some v \<longrightarrow> \<not> slug_taken v ?i db)"
  proof -
    from that have "\<exists>db1. UPDATE_posts ?us ?i db = Inr db1"
      by (intro UPDATE_posts_accepted) blast+
    then show ?thesis by (intro 1) auto
  qed
  show "\<exists>r. res = Inr (Some r) \<and> Post.updated_at r = unow
            \<and> Post.truncate r = p\<lparr>Post.updated_at := unow\<rparr>"
    if e: "distinct (map Post.slug (posts db)) \<and> input = only_id ?i"
  proof -
    from e have none: "UpdatePostInput.slug input = None" "UpdatePostInput.categories input = None"
      "UpdatePostInput.tags input = None" "UpdatePostInput.title input = None"
      "UpdatePostInput.content input = None" "UpdatePostInput.excerpt input = None"
      "UpdatePostInput.cover_image input = None" "UpdatePostInput.published input = None"
      "UpdatePostInput.featured input = None"
      by (metis only_id_def UpdatePostInput.select_convs)+
    with e assms(1) have "\<exists>db'' r. postService_update crt pnow unow input db = (db'', Inr (Some r))"
      by (intro postService_update_succeeds) auto
    with assms(2) obtain r where r: "res = Inr (Some r)" by auto
    with assms(2) have f: "postService_findById ?i db' = Some r"
      by (auto elim: postService_update_Inr)
    from row r assms(2) have g: "posts_get ?i db' = Some (SET ?us p)"
      by (auto simp: postService_update_def)
    from f g have "r = with_relations (SET ?us p) db'"
      by (simp add: posts_get_findById)
    then show ?thesis using r none
      by (simp add: with_relations_def SET_updates_of Post.extend_def Post.truncate_def)
  qed
qed

theorem update_sets_updated_at_witness:
  "posts_get ''p1'' db0 = Some hello
   \<and> (\<exists>r. snd (postService_update calculateReadingTime ''2024-06-01T10:00:00.000Z''
                 ''2024-06-01T10:00:00.001Z'' (only_id ''p1'') db0) = Inr (Some r)
          \<and> Post.updated_at r = ''2024-06-01T10:00:00.001Z'')"
proof -
  have h: "posts_get (UpdatePostInput.id (only_id ''p1'')) db0 = Some hello"
    by (simp add: db0_p1 only_id_def)
  have d: "distinct (map Post.slug (posts db0))"
    by (simp add: example_defs)
  have e: "only_id ''p1'' = only_id (UpdatePostInput.id (only_id ''p1''))"
    by (simp add: only_id_def)
  from update_sets_updated_at[OF h surjective_pairing, where crt = calculateReadingTime
      and pnow = "''2024-06-01T10:00:00.000Z''" and unow = "''2024-06-01T10:00:00.001Z''"] d e
  have "\<exists>r. snd (postService_update calculateReadingTime ''2024-06-01T10:00:00.000Z''
                 ''2024-06-01T10:00:00.001Z'' (only_id ''p1'') db0) = Inr (Some r)
          \<and> Post.updated_at r = ''2024-06-01T10:00:00.001Z''"
    by blast
  with db0_p1 show ?thesis by blast
qed

theorem update_sets_updated_at_counterexample:
  "posts_get ''p1'' db0 = Some hello
   \<and> postService_update calculateReadingTime ''2024-06-01T10:00:00.000Z''
        ''2024-06-01T10:00:00.001Z''
        ((only_id ''p1'')\<lparr>UpdatePostInput.slug := Some ''draft''\<rparr>) db0
       = (db0, Inl SQLITE_CONSTRAINT_UNIQUE)
   \<and> map_option Post.updated_at (posts_get ''p1'' db0) = Some ''2024-01-02 00:00:00''
   \<and> map_option Post.updated_at (posts_get ''p1'' db0) \<noteq> Some ''2024-06-01T10:00:00.001Z''"
  by (simp add: update_defs example_defs)

subsection \<open>Ids that resolve to no row\<close>

lemma postService_findById_absent:
  "posts_get i db = None \<Longrightarrow> postService_findById i db = None"
  by (simp add: posts_get_findById)

lemma postService_findBySlug_absent:
  assumes "\<forall>p \<in> set (posts db). Post.slug p \<noteq> s"
  shows "postService_findBySlug s db = None"
proof -
  from assms have "find (\<lambda>p. Post.slug p = s) (posts db) = None"
    by (simp add: find_None_iff)
  then show ?thesis by (simp add: postService_findBySlug_def)
qed

lemma postService_update_absent_plain:
  assumes "posts_get (UpdatePostInput.id input) db = None"
    and "UpdatePostInput.categories input = None" and "UpdatePostInput.tags input = None"
  shows "postService_update crt pnow unow input db = (db, Inr None)"
  using assms
  by (simp add: postService_update_def UPDATE_posts_absent update_categories_def
      update_tags_def postService_findById_absent)

lemma postService_update_absent_throws:
  assumes "posts_get (UpdatePostInput.id input) db = None"
    and "UpdatePostInput.categories input = Some (c # cs)"
  shows "postService_update crt pnow unow input db
           = (DELETE_FROM_post_categories (UpdatePostInput.id input) db,
              Inl SQLITE_CONSTRAINT_FOREIGNKEY)"
proof -
  from assms(1) have no: "UpdatePostInput.id input \<notin> Post.id ` set (posts db)"
    by (auto simp: posts_get_def find_None_iff)
  then have "INSERT_INTO_post_categories (UpdatePostInput.id input) c
               (DELETE_FROM_post_categories (UpdatePostInput.id input) db)
             = Inl SQLITE_CONSTRAINT_FOREIGNKEY"
    by (simp add: INSERT_INTO_post_categories_def DELETE_FROM_post_categories_def)
  with assms show ?thesis
    by (simp add: postService_update_def UPDATE_posts_absent update_categories_def)
qed

text \<open>
  C6. An id that resolves to no row is reported as an absent result: \<^verbatim>\<open>findById\<close> and
  \<^verbatim>\<open>findBySlug\<close> return nothing, and so does \<^verbatim>\<open>update\<close> when it supplies no
  associations. With a non-empty \<^verbatim>\<open>categories\<close> array \<^verbatim>\<open>update\<close> throws instead: the
  junction insert names a post that does not exist and fails its foreign key. The
  theorem evaluates the call on the example data, where no post has the id \<^verbatim>\<open>p9\<close>.
\<close>

theorem update_absent_id_throws:
  "posts_get ''p9'' db0 = None
   \<and> postService_findById ''p9'' db0 = None
   \<and> postService_update calculateReadingTime ''2024-06-01T10:00:00.000Z''
        ''2024-06-01T10:00:00.001Z''
        ((only_id ''p9'')\<lparr>UpdatePostInput.categories := Some [''c1'']\<rparr>) db0
       = (db0, Inl SQLITE_CONSTRAINT_FOREIGNKEY)"
  by (simp add: update_defs example_defs)

section \<open>Listing and searching\<close>

subsection \<open>ORDER BY\<close>

lemma set_insert_desc: "set (insert_desc p qs) = insert p (set qs)"
  by (induction qs) auto

lemma mset_insert_desc: "mset (insert_desc p qs) = add_mset p (mset qs)"
  by (induction qs) auto

lemma sorted_insert_desc:
  "sorted_wrt (\<lambda>a b. Post.created_at b \<le> Post.created_at a) qs
   \<Longrightarrow> sorted_wrt (\<lambda>a b. Post.created_at b \<le> Post.created_at a) (insert_desc p qs)"
  by (induction qs) (auto simp: set_insert_desc intro: order_trans)

lemma mset_ORDER_BY: "mset (ORDER_BY_created_at_DESC rows) = mset rows"
  unfolding ORDER_BY_created_at_DESC_def by (induction rows) (simp_all add: mset_insert_desc)

lemma set_ORDER_BY: "set (ORDER_BY_created_at_DESC rows) = set rows"
  by (metis mset_ORDER_BY set_mset_mset)

lemma sorted_ORDER_BY:
  "sorted_wrt (\<lambda>a b. Post.created_at b \<le> Post.created_at a) (ORDER_BY_created_at_DESC rows)"
  unfolding ORDER_BY_created_at_DESC_def by (induction rows) (simp_all add: sorted_insert_desc)

subsection \<open>LIKE\<close>

lemma LIKE_percent_only: "LIKE s ''%''"
  by (induction s) simp_all

lemma starts_with_ci_Nil: "starts_with_ci q [] = (q = [])"
  by (cases q) simp_all

lemma LIKE_prefix:
  "CHR ''%'' \<notin> set q \<Longrightarrow> CHR ''_'' \<notin> set q \<Longrightarrow> LIKE s (q @ ''%'') = starts_with_ci q s"
proof (induction q arbitrary: s)
  case Nil
  then show ?case by (simp add: LIKE_percent_only)
next
  case (Cons a q)
  then show ?case by (cases s) auto
qed

lemma LIKE_contains:
  assumes "CHR ''%'' \<notin> set q" and "CHR ''_'' \<notin> set q"
  shows "LIKE s (''%'' @ q @ ''%'') = contains_ci q s"
proof (induction s)
  case Nil
  have "LIKE [] (q @ ''%'') = starts_with_ci q []"
    using assms by (rule LIKE_prefix)
  then show ?case by (simp add: starts_with_ci_Nil)
next
  case (Cons c cs)
  have "LIKE (c # cs) (q @ ''%'') = starts_with_ci q (c # cs)"
    using assms by (rule LIKE_prefix)
  with Cons show ?case by simp
qed

lemma postService_search_plain:
  assumes "CHR ''%'' \<notin> set query" and "CHR ''_'' \<notin> set query"
  shows "postService_search query db =
           map (\<lambda>post. with_relations post db)
             (ORDER_BY_created_at_DESC (filter (spec_search_matches query) (posts db)))"
proof -
  have "(\<lambda>p. Post.published p = 1
              \<and> (LIKE (Post.title p) (''%'' @ query @ ''%'') \<or> LIKE (Post.content p) (''%'' @ query @ ''%'')
                  \<or> LIKE_nullable (Post.excerpt p) (''%'' @ query @ ''%'')))
        = spec_search_matches query"
    by (rule ext)
       (simp only: LIKE_contains[OF assms] LIKE_nullable_def spec_search_matches_def)
  then show ?thesis by (simp add: postService_search_def Let_def)
qed

subsection \<open>findAll\<close>

lemma findAll_offset_without_limit:
  assumes "truthy_number (findAll_options.limit options) = None"
    and "truthy_number (findAll_options.offset options) = Some m"
  shows "postService_findAll options db = Inl SQLITE_ERROR"
  using assms
  by (simp add: postService_findAll_def findAll_query_def split: option.splits)

lemma findAll_mismatch:
  assumes "truthy_number (findAll_options.limit options) = Some n" and "\<not> is_int64 n"
  shows "postService_findAll options db = Inl SQLITE_MISMATCH"
  using assms
  by (cases "findAll_options.published options"; cases "findAll_options.featured options";
      cases "truthy_number (findAll_options.offset options)")
     (simp_all add: postService_findAll_def findAll_query_def)

lemma findAll_otherwise:
  assumes "truthy_number (findAll_options.limit options) \<noteq> None
           \<or> truthy_number (findAll_options.offset options) = None"
    and "\<forall>n. truthy_number (findAll_options.limit options) = Some n \<longrightarrow> is_int64 n"
    and "\<forall>m. truthy_number (findAll_options.offset options) = Some m \<longrightarrow> is_int64 m"
  shows "postService_findAll options db =
           Inr (map (\<lambda>post. with_relations post db)
                  (page options (ORDER_BY_created_at_DESC (filter (selected options) (posts db)))))"
  using assms
  by (auto simp: postService_findAll_def findAll_query_def page_def selected_def[abs_def]
           split: option.splits)

lemma with_relations_id [simp]: "Post.id (with_relations p db) = Post.id p"
  by (simp add: with_relations_def Post.extend_def)

lemma with_relations_truncate [simp]: "Post.truncate (with_relations p db) = p"
  by (simp add: with_relations_def Post.extend_def Post.truncate_def)

lemma map_id_with_relations [simp]:
  "map Post.id (map (\<lambda>post. with_relations post db) rows) = map Post.id rows"
  by (simp add: comp_def)

text \<open>
  C4. \<^verbatim>\<open>search\<close> puts the query between two \<^verbatim>\<open>%\<close> and hands it to LIKE unescaped, so a
  \<^verbatim>\<open>%\<close> or \<^verbatim>\<open>_\<close> in the query is a wildcard and not a character to find. For a query
  with neither (\<open>postService_search_plain\<close>) the result is what the claim says: the
  published posts that contain the query, letters of either case, newest first. The
  theorem evaluates the query \<^verbatim>\<open>hello_world\<close> on the example data: no post contains it,
  and \<^verbatim>\<open>search\<close> returns the post titled "Hello World"; the query \<^verbatim>\<open>next\<close> returns the
  published post and leaves out the unpublished one that contains it.
\<close>

theorem search_wildcards:
  "map Post.id (postService_search ''hello_world'' db0) = [''p1'']
   \<and> filter (spec_search_matches ''hello_world'') (posts db0) = []
   \<and> map Post.id (postService_search ''next'' db0) = [''p1'']
   \<and> map Post.id (filter (spec_search_matches ''next'') (posts db0)) = [''p1'']"
  by code_simp

text \<open>
  C5. \<^verbatim>\<open>findAll\<close> appends \<^verbatim>\<open>OFFSET ?\<close> whenever an offset is supplied, also with no
  \<^verbatim>\<open>LIMIT ?\<close> before it, and SQLite rejects that text: an offset supplied without a limit
  makes \<^verbatim>\<open>db.prepare\<close> throw (\<open>findAll_offset_without_limit\<close>). A limit of 0 is dropped
  by the truthiness test and every row comes back. In all other cases, with a limit and
  an offset that are integers, the result is the filtered, ordered page
  (\<open>findAll_otherwise\<close>). The theorem evaluates three calls on the
  example data: offset 1 alone, limit 1 with offset 1, and limit 0.
\<close>

theorem findAll_offset_alone:
  "postService_findAll \<lparr>published = None, featured = None, limit = None, offset = Some 1\<rparr> db0
     = Inl SQLITE_ERROR
   \<and> map_sum (\<lambda>e. e) (map Post.id)
        (postService_findAll \<lparr>published = None, featured = None, limit = Some 1, offset = Some 1\<rparr> db0)
     = Inr [''p1'']
   \<and> map_sum (\<lambda>e. e) (map Post.id)
        (postService_findAll \<lparr>published = None, featured = None, limit = Some 0, offset = None\<rparr> db0)
     = Inr [''p2'', ''p1'']"
  by code_simp

section \<open>The slug generator\<close>

lemma lower_other: "c \<notin> set ''ABCDEFGHIJKLMNOPQRSTUVWXYZ'' \<Longrightarrow> lower c = c"
proof -
  assume "c \<notin> set ''ABCDEFGHIJKLMNOPQRSTUVWXYZ''"
  then have "map_of (zip ''ABCDEFGHIJKLMNOPQRSTUVWXYZ'' ''abcdefghijklmnopqrstuvwxyz'') c = None"
    by (subst map_of_zip_is_None) simp_all
  then show ?thesis by (simp only: lower_def option.case)
qed

lemma alnum_not_upper:
  "list_all (\<lambda>c. c \<notin> set ''ABCDEFGHIJKLMNOPQRSTUVWXYZ'') ''abcdefghijklmnopqrstuvwxyz0123456789''"
  by code_simp

lemma is_alnum_not_upper: "is_alnum c \<Longrightarrow> c \<notin> set ''ABCDEFGHIJKLMNOPQRSTUVWXYZ''"
  using alnum_not_upper unfolding is_alnum_def list_all_iff by blast

lemma lower_alnum: "is_alnum c \<Longrightarrow> lower c = c"
  by (rule lower_other) (rule is_alnum_not_upper)

lemma is_alnum_not_hyphen: "is_alnum c \<Longrightarrow> c \<noteq> CHR ''-''"
  by (auto simp: is_alnum_def)

lemma lower_hyphen: "lower (CHR ''-'') = CHR ''-''"
  by (rule lower_other) simp

lemma collapse_alnum_Cons: "is_alnum d \<Longrightarrow> collapse (d # cs) = d # collapse cs"
  by (cases cs) simp_all

lemma collapse_chars: "list_all (\<lambda>c. is_alnum c \<or> c = CHR ''-'') (collapse s)"
  by (induction s rule: collapse.induct) simp_all

lemma double_hyphen_Cons_alnum: "is_alnum c \<Longrightarrow> double_hyphen (c # s) = double_hyphen s"
  by (cases s) (auto dest: is_alnum_not_hyphen)

lemma double_hyphen_Cons_Cons_alnum:
  "is_alnum d \<Longrightarrow> double_hyphen (c # d # s) = double_hyphen s"
  by (cases s) (auto dest: is_alnum_not_hyphen)

lemma collapse_no_double: "\<not> double_hyphen (collapse s)"
proof (induction s rule: collapse.induct)
  case 1
  then show ?case by simp
next
  case (2 c)
  then show ?case by simp
next
  case (3 c d cs)
  show ?case
  proof (cases "is_alnum c")
    case True
    with 3 show ?thesis by (simp add: double_hyphen_Cons_alnum)
  next
    case c: False
    show ?thesis
    proof (cases "is_alnum d")
      case True
      from 3(2)[OF c True] True have "\<not> double_hyphen (collapse cs)"
        by (simp add: collapse_alnum_Cons double_hyphen_Cons_alnum)
      moreover have "collapse (c # d # cs) = CHR ''-'' # d # collapse cs"
        using c True by (simp add: collapse_alnum_Cons)
      ultimately show ?thesis
        using True by (simp only: double_hyphen_Cons_Cons_alnum not_False_eq_True)
    next
      case False
      with 3 c show ?thesis by simp
    qed
  qed
qed

lemma double_hyphen_Cons: "double_hyphen s \<Longrightarrow> double_hyphen (c # s)"
  by (cases s) simp_all

lemma double_hyphen_append:
  "double_hyphen xs \<or> double_hyphen ys \<Longrightarrow> double_hyphen (xs @ ys)"
proof (induction xs)
  case Nil
  then show ?case by simp
next
  case (Cons x xs)
  show ?case
  proof (cases xs)
    case Nil
    with Cons.prems show ?thesis by (simp add: double_hyphen_Cons)
  next
    case (Cons y zs)
    with Cons.prems Cons.IH show ?thesis by auto
  qed
qed

lemma trim_hyphens_split:
  "\<exists>xs ys. s = xs @ trim_hyphens s @ ys"
proof -
  let ?P = "\<lambda>c. c = CHR ''-''"
  let ?m = "dropWhile ?P s"
  have 1: "s = takeWhile ?P s @ ?m" by simp
  have "rev ?m = takeWhile ?P (rev ?m) @ dropWhile ?P (rev ?m)" by simp
  then have "?m = rev (dropWhile ?P (rev ?m)) @ rev (takeWhile ?P (rev ?m))"
    by (metis rev_append rev_rev_ident)
  then have 2: "?m = trim_hyphens s @ rev (takeWhile ?P (rev ?m))"
    by (simp add: trim_hyphens_def)
  from 1 2 have "s = takeWhile ?P s @ trim_hyphens s @ rev (takeWhile ?P (rev ?m))"
    by simp
  then show ?thesis by blast
qed

lemma trim_hyphens_chars:
  "list_all Q s \<Longrightarrow> list_all Q (trim_hyphens s)"
proof -
  assume a: "list_all Q s"
  obtain xs ys where "s = xs @ trim_hyphens s @ ys"
    using trim_hyphens_split by blast
  with a have "list_all Q (xs @ trim_hyphens s @ ys)" by simp
  then show ?thesis by simp
qed

lemma trim_hyphens_no_double:
  assumes "\<not> double_hyphen s"
  shows "\<not> double_hyphen (trim_hyphens s)"
proof
  assume d: "double_hyphen (trim_hyphens s)"
  obtain xs ys where s: "s = xs @ trim_hyphens s @ ys"
    using trim_hyphens_split by blast
  from d have "double_hyphen (trim_hyphens s @ ys)" by (simp add: double_hyphen_append)
  then have "double_hyphen (xs @ trim_hyphens s @ ys)" by (simp add: double_hyphen_append)
  with s assms show False by simp
qed

lemma trim_hyphens_ends:
  "trim_hyphens s = [] \<or> hd (trim_hyphens s) \<noteq> CHR ''-'' \<and> last (trim_hyphens s) \<noteq> CHR ''-''"
proof (cases "trim_hyphens s = []")
  case True
  then show ?thesis by simp
next
  case False
  let ?P = "\<lambda>c. c = CHR ''-''"
  let ?m = "dropWhile ?P s"
  let ?r = "dropWhile ?P (rev ?m)"
  from False have r: "?r \<noteq> []" by (simp add: trim_hyphens_def)
  then have "\<not> ?P (hd ?r)" by (rule hd_dropWhile)
  then have l: "last (trim_hyphens s) \<noteq> CHR ''-''"
    using r by (simp add: trim_hyphens_def last_rev)
  have m: "?m \<noteq> []"
  proof
    assume "?m = []"
    then have "?r = []" by (simp only: rev.simps(1) dropWhile.simps(1))
    with r show False by (simp only:)
  qed
  then have hm: "\<not> ?P (hd ?m)" by (rule hd_dropWhile)
  have "rev ?m = takeWhile ?P (rev ?m) @ ?r" by simp
  then have "?m = rev ?r @ rev (takeWhile ?P (rev ?m))"
    by (metis rev_append rev_rev_ident)
  then have "hd ?m = hd (rev ?r)" using r by (metis hd_append2 rev_is_Nil_conv)
  with hm have "hd (trim_hyphens s) \<noteq> CHR ''-''" by (simp add: trim_hyphens_def)
  with l show ?thesis by simp
qed

lemma is_slug_generateSlug: "is_slug (generateSlug s)"
  unfolding is_slug_def generateSlug_def
  using trim_hyphens_ends[of "collapse (map lower s)"]
  by (simp add: trim_hyphens_chars collapse_chars trim_hyphens_no_double collapse_no_double)

lemma collapse_fixed:
  "list_all (\<lambda>c. is_alnum c \<or> c = CHR ''-'') s \<Longrightarrow> \<not> double_hyphen s \<Longrightarrow> collapse s = s"
proof (induction s rule: collapse.induct)
  case 1
  then show ?case by simp
next
  case (2 c)
  then show ?case by auto
next
  case (3 c d cs)
  from 3(4) have ok: "list_all (\<lambda>c. is_alnum c \<or> c = CHR ''-'') (d # cs)" by simp
  from 3(5) have nd: "\<not> double_hyphen (d # cs)" by simp
  show ?case
  proof (cases "is_alnum c")
    case True
    with 3(1)[OF True ok nd] show ?thesis by simp
  next
    case c: False
    with 3(4) have ch: "c = CHR ''-''" by simp
    with 3(5) have "d \<noteq> CHR ''-''" by simp
    with 3(4) have d: "is_alnum d" by simp
    with 3(2)[OF c d ok nd] c ch show ?thesis by simp
  qed
qed

lemma trim_hyphens_fixed:
  assumes "s = [] \<or> hd s \<noteq> CHR ''-'' \<and> last s \<noteq> CHR ''-''"
  shows "trim_hyphens s = s"
proof (cases "s = []")
  case True
  then show ?thesis by (simp add: trim_hyphens_def)
next
  case False
  with assms have h: "hd s \<noteq> CHR ''-''" and l: "last s \<noteq> CHR ''-''" by simp_all
  from False h have 1: "dropWhile (\<lambda>c. c = CHR ''-'') s = s"
    by (cases s) simp_all
  from False l have "hd (rev s) \<noteq> CHR ''-''" by (simp add: hd_rev)
  with False have 2: "dropWhile (\<lambda>c. c = CHR ''-'') (rev s) = rev s"
    by (cases "rev s") simp_all
  from 1 2 show ?thesis by (simp add: trim_hyphens_def)
qed

lemma map_lower_fixed:
  "list_all (\<lambda>c. is_alnum c \<or> c = CHR ''-'') s \<Longrightarrow> map lower s = s"
  by (induction s) (auto simp: lower_alnum lower_hyphen)

lemma generateSlug_fixed: "is_slug s \<Longrightarrow> generateSlug s = s"
  unfolding is_slug_def generateSlug_def
  by (simp add: map_lower_fixed collapse_fixed trim_hyphens_fixed)

subsection \<open>The slug and the text\<close>

lemma fields_nonempty: "fields s \<noteq> []"
  by (induction s) (auto split: list.splits)

lemma fields_alnum:
  "is_alnum c \<Longrightarrow> fields (c # cs) = (c # hd (fields cs)) # tl (fields cs)"
  using fields_nonempty[of cs] by (cases "fields cs") simp_all

lemma fields_sep: "\<not> is_alnum c \<Longrightarrow> fields (c # cs) = [] # fields cs"
  by simp

lemma hyphen_not_alnum: "\<not> is_alnum (CHR ''-'')"
  using is_alnum_not_hyphen by blast

lemma fields_hd_tl: "fields s = hd (fields s) # tl (fields s)"
  using fields_nonempty[of s] by simp

lemma alnum_words_hd_tl:
  "alnum_words s = filter (\<lambda>w. w \<noteq> []) [hd (fields s)] @ filter (\<lambda>w. w \<noteq> []) (tl (fields s))"
  unfolding alnum_words_def by (subst fields_hd_tl) simp

lemma fields_collapse:
  "hd (fields (collapse t)) = hd (fields t)
   \<and> filter (\<lambda>w. w \<noteq> []) (tl (fields (collapse t))) = filter (\<lambda>w. w \<noteq> []) (tl (fields t))"
proof (induction t rule: collapse.induct)
  case 1
  then show ?case by simp
next
  case (2 c)
  then show ?case by (simp add: hyphen_not_alnum)
next
  case (3 c d cs)
  show ?case
  proof (cases "is_alnum c")
    case True
    with 3(1) show ?thesis by (simp add: fields_alnum del: fields.simps)
  next
    case c: False
    show ?thesis
    proof (cases "is_alnum d")
      case True
      from 3(2)[OF c True]
      have "filter (\<lambda>w. w \<noteq> []) (fields (collapse (d # cs))) = filter (\<lambda>w. w \<noteq> []) (fields (d # cs))"
        by (subst fields_hd_tl, subst (2) fields_hd_tl) simp
      with c True show ?thesis
        by (simp add: fields_sep hyphen_not_alnum del: fields.simps)
    next
      case d: False
      from 3(3)[OF c d] c d show ?thesis
        by (simp add: fields_sep del: fields.simps)
    qed
  qed
qed

lemma alnum_words_collapse: "alnum_words (collapse t) = alnum_words t"
  by (simp only: alnum_words_hd_tl fields_collapse)

lemma alnum_words_sep: "\<not> is_alnum c \<Longrightarrow> alnum_words (c # s) = alnum_words s"
  by (simp add: alnum_words_def)

lemma alnum_words_dropWhile:
  "alnum_words (dropWhile (\<lambda>c. c = CHR ''-'') u) = alnum_words u"
  by (induction u) (simp_all add: alnum_words_sep hyphen_not_alnum del: fields.simps)

lemma fields_snoc_sep: "\<not> is_alnum c \<Longrightarrow> fields (xs @ [c]) = fields xs @ [[]]"
proof (induction xs)
  case Nil
  then show ?case by simp
next
  case (Cons x xs)
  show ?case
  proof (cases "is_alnum x")
    case True
    have "fields (x # (xs @ [c])) = (x # hd (fields (xs @ [c]))) # tl (fields (xs @ [c]))"
      using True by (rule fields_alnum)
    also have "\<dots> = (x # hd (fields xs)) # tl (fields xs) @ [[]]"
      using Cons fields_nonempty[of xs] by simp
    also have "\<dots> = fields (x # xs) @ [[]]"
      using True by (simp add: fields_alnum del: fields.simps)
    finally show ?thesis by simp
  next
    case False
    with Cons show ?thesis by simp
  qed
qed

lemma alnum_words_snoc_sep: "\<not> is_alnum c \<Longrightarrow> alnum_words (xs @ [c]) = alnum_words xs"
  by (simp add: alnum_words_def fields_snoc_sep)

lemma alnum_words_drop_trailing:
  "alnum_words (rev (dropWhile (\<lambda>c. c = CHR ''-'') (rev m))) = alnum_words m"
proof (induction m rule: rev_induct)
  case Nil
  then show ?case by simp
next
  case (snoc x xs)
  then show ?case by (simp add: alnum_words_snoc_sep hyphen_not_alnum)
qed

lemma alnum_words_trim: "alnum_words (trim_hyphens u) = alnum_words u"
  by (simp add: trim_hyphens_def alnum_words_drop_trailing alnum_words_dropWhile)

lemma alnum_words_generateSlug: "alnum_words (generateSlug s) = alnum_words (map lower s)"
  by (simp add: generateSlug_def alnum_words_trim alnum_words_collapse)

lemma join_hyphens_Cons_char: "join_hyphens ((c # w) # ws) = c # join_hyphens (w # ws)"
  by (cases ws) simp_all

lemma join_hyphens_Nil_Cons: "ws \<noteq> [] \<Longrightarrow> join_hyphens ([] # ws) = CHR ''-'' # join_hyphens ws"
  by (cases ws) simp_all

lemma join_fields:
  "list_all (\<lambda>c. is_alnum c \<or> c = CHR ''-'') x \<Longrightarrow> join_hyphens (fields x) = x"
proof (induction x)
  case Nil
  then show ?case by simp
next
  case (Cons c cs)
  then have IH: "join_hyphens (fields cs) = cs" by simp
  show ?case
  proof (cases "is_alnum c")
    case True
    have "join_hyphens (fields (c # cs)) = c # join_hyphens (hd (fields cs) # tl (fields cs))"
      using True by (simp add: fields_alnum join_hyphens_Cons_char del: fields.simps)
    also have "\<dots> = c # join_hyphens (fields cs)"
      using fields_hd_tl[of cs] by simp
    finally show ?thesis using IH by simp
  next
    case False
    with Cons.prems have "c = CHR ''-''" by simp
    with False IH show ?thesis
      by (simp add: join_hyphens_Nil_Cons fields_nonempty del: fields.simps add: fields_sep)
  qed
qed

lemma slug_fields:
  "list_all (\<lambda>c. is_alnum c \<or> c = CHR ''-'') x \<Longrightarrow> \<not> double_hyphen x \<Longrightarrow> x \<noteq> []
   \<Longrightarrow> last x \<noteq> CHR ''-''
   \<Longrightarrow> [] \<notin> set (tl (fields x)) \<and> (hd (fields x) = [] \<longleftrightarrow> hd x = CHR ''-'')"
proof (induction x)
  case Nil
  then show ?case by simp
next
  case (Cons c cs)
  show ?case
  proof (cases cs)
    case Nil
    with Cons.prems have "is_alnum c" by auto
    with Nil show ?thesis by (auto dest: is_alnum_not_hyphen)
  next
    case (Cons d ds)
    with Cons.prems have pre: "list_all (\<lambda>c. is_alnum c \<or> c = CHR ''-'') cs"
      "\<not> double_hyphen cs" "cs \<noteq> []" "last cs \<noteq> CHR ''-''"
      by auto
    note IH = Cons.IH[OF pre]
    show ?thesis
    proof (cases "is_alnum c")
      case True
      with IH show ?thesis
        by (auto simp: fields_alnum dest: is_alnum_not_hyphen simp del: fields.simps)
    next
      case False
      with Cons.prems have c: "c = CHR ''-''" by simp
      with Cons.prems Cons have "d \<noteq> CHR ''-''" by simp
      with IH Cons have "hd (fields cs) \<noteq> []" by simp
      moreover have "fields cs = hd (fields cs) # tl (fields cs)" by (rule fields_hd_tl)
      ultimately have "[] \<notin> set (fields cs)" using IH by (metis set_ConsD)
      with False c show ?thesis by (simp add: fields_sep del: fields.simps)
    qed
  qed
qed

lemma join_alnum_words_slug:
  assumes "is_slug x"
  shows "join_hyphens (alnum_words x) = x"
proof (cases "x = []")
  case True
  then show ?thesis by (simp add: alnum_words_def)
next
  case False
  with assms have ok: "list_all (\<lambda>c. is_alnum c \<or> c = CHR ''-'') x" and nd: "\<not> double_hyphen x"
    and h: "hd x \<noteq> CHR ''-''" and l: "last x \<noteq> CHR ''-''"
    by (simp_all add: is_slug_def)
  from slug_fields[OF ok nd False l] h
  have "[] \<notin> set (tl (fields x))" "hd (fields x) \<noteq> []" by simp_all
  then have "[] \<notin> set (fields x)" using fields_hd_tl[of x] by (metis set_ConsD)
  then have "alnum_words x = fields x" by (auto simp: alnum_words_def filter_id_conv)
  with ok show ?thesis by (simp add: join_fields)
qed

lemma generateSlug_join:
  "generateSlug s = join_hyphens (alnum_words (map lower s))"
  using join_alnum_words_slug[OF is_slug_generateSlug, of s]
  by (simp add: alnum_words_generateSlug)

lemma fields_chars: "\<forall>w \<in> set (fields t). list_all is_alnum w"
proof (induction t)
  case Nil
  then show ?case by simp
next
  case (Cons c cs)
  have h: "hd (fields cs) \<in> set (fields cs)"
    using fields_nonempty[of cs] by simp
  have t: "set (tl (fields cs)) \<subseteq> set (fields cs)"
    using fields_nonempty[of cs] by (simp add: list.set_sel(2) subsetI)
  show ?case
  proof (cases "is_alnum c")
    case True
    with Cons h t show ?thesis
      by (auto simp: fields_alnum simp del: fields.simps)
  next
    case False
    with Cons show ?thesis by simp
  qed
qed

lemma concat_fields: "concat (fields t) = filter is_alnum t"
proof (induction t)
  case Nil
  then show ?case by simp
next
  case (Cons c cs)
  have "concat (fields cs) = hd (fields cs) @ concat (tl (fields cs))"
    by (subst fields_hd_tl) simp
  with Cons show ?case
    by (cases "is_alnum c") (simp_all add: fields_alnum del: fields.simps add: fields_sep)
qed

lemma concat_nonempty: "concat (filter (\<lambda>w. w \<noteq> []) ws) = concat ws"
  by (induction ws) simp_all

lemma filter_alnum_join:
  "\<forall>w \<in> set ws. list_all is_alnum w \<Longrightarrow> filter is_alnum (join_hyphens ws) = concat ws"
proof (induction ws rule: join_hyphens.induct)
  case 1
  then show ?case by simp
next
  case (2 w)
  then show ?case by (simp add: list_all_iff)
next
  case (3 w v ws)
  then show ?case by (simp add: list_all_iff hyphen_not_alnum)
qed

lemma generateSlug_alnum:
  "filter is_alnum (generateSlug s) = filter is_alnum (map lower s)"
proof -
  have "\<forall>w \<in> set (alnum_words (map lower s)). list_all is_alnum w"
    using fields_chars[of "map lower s"] by (auto simp: alnum_words_def)
  then have "filter is_alnum (generateSlug s) = concat (alnum_words (map lower s))"
    by (simp add: generateSlug_join filter_alnum_join)
  then show ?thesis by (simp add: alnum_words_def concat_nonempty concat_fields)
qed

text \<open>
  C9. The slug generator is a function of its input alone (a HOL function is
  deterministic and has no effect). For every text, the slug it returns consists of
  lowercase alphanumerics and single hyphens and neither starts nor ends with a hyphen;
  it is the lowercased text with every run of other characters replaced by one hyphen
  and none first or last, that is, the alphanumeric pieces of the lowercased text joined
  by single hyphens, so its alphanumerics are those of the lowercased text, in order.
  A string that already is such a slug is returned unchanged, so applying the generator
  twice is applying it once. The generator is the one modelled from the spec above.
\<close>

theorem generateSlug_is_slug:
  "is_slug (generateSlug s)
   \<and> generateSlug s = join_hyphens (alnum_words (map lower s))
   \<and> filter is_alnum (generateSlug s) = filter is_alnum (map lower s)
   \<and> generateSlug (generateSlug s) = generateSlug s
   \<and> (is_slug t \<longrightarrow> generateSlug t = t)"
  by (simp add: is_slug_generateSlug generateSlug_fixed generateSlug_alnum
      generateSlug_join[symmetric])

theorem generateSlug_is_slug_witness:
  "is_slug ''hello-world'' \<and> generateSlug ''hello-world'' = ''hello-world''
   \<and> generateSlug ''Hello, World!'' = ''hello-world''
   \<and> join_hyphens (alnum_words (map lower ''Hello, World!'')) = ''hello-world''
   \<and> filter is_alnum (map lower ''Hello, World!'') = ''helloworld''
   \<and> is_slug (generateSlug ''Hello, World!'')"
proof -
  have s: "is_slug ''hello-world''" by code_simp
  have g: "generateSlug ''Hello, World!'' = ''hello-world''" by code_simp
  have f: "filter is_alnum (map lower ''Hello, World!'') = ''helloworld''" by code_simp
  note inst = generateSlug_is_slug[of "''Hello, World!''" "''hello-world''"]
  from inst have a: "generateSlug ''Hello, World!''
      = join_hyphens (alnum_words (map lower ''Hello, World!''))"
    and b: "is_slug ''hello-world'' \<longrightarrow> generateSlug ''hello-world'' = ''hello-world''"
    and c: "is_slug (generateSlug ''Hello, World!'')"
    by (rule conjunct1 conjunct2[THEN conjunct1]
        conjunct2[THEN conjunct2, THEN conjunct2, THEN conjunct2])+
  from b s have "generateSlug ''hello-world'' = ''hello-world''" by (rule mp)
  moreover from a g have "join_hyphens (alnum_words (map lower ''Hello, World!'')) = ''hello-world''"
    by (simp only:)
  ultimately show ?thesis using s g f c by (intro conjI)
qed

section \<open>Creating rows\<close>

lemma userService_create_conflict:
  assumes "uuid \<notin> User.id ` set (users db)" and "e \<in> User.email ` set (users db)"
  shows "userService_create uuid ts e n pw db = (db, Inl SQLITE_CONSTRAINT_UNIQUE)"
  using assms by (simp add: userService_create_def INSERT_INTO_users_def)

lemma categoryService_create_conflict:
  assumes "uuid \<notin> Category.id ` set (database.categories db)"
    and "n \<in> Category.name ` set (database.categories db)
         \<or> gs n \<in> Category.slug ` set (database.categories db)"
  shows "categoryService_create gs uuid ts n d c db = (db, Inl SQLITE_CONSTRAINT_UNIQUE)"
  using assms by (auto simp: categoryService_create_def INSERT_INTO_categories_def)

lemma tagService_create_conflict:
  assumes "uuid \<notin> Tag.id ` set (database.tags db)"
    and "n \<in> Tag.name ` set (database.tags db) \<or> gs n \<in> Tag.slug ` set (database.tags db)"
  shows "tagService_create gs uuid ts n db = (db, Inl SQLITE_CONSTRAINT_UNIQUE)"
  using assms by (auto simp: tagService_create_def INSERT_INTO_tags_def)

lemma postService_create_conflict:
  assumes "uuid \<notin> Post.id ` set (posts db)"
    and "CreatePostInput.slug input \<in> Post.slug ` set (posts db)"
  shows "postService_create crt uuid now ts input db = (db, Inl SQLITE_CONSTRAINT_UNIQUE)"
  using assms by (simp add: postService_create_def INSERT_INTO_posts_def Let_def)

lemma POST_categories_failure:
  assumes "categoryService_create gs uuid ts n (category_body.description body)
             (category_body.color body) db = (db', Inl err)"
    and "category_body.name body = Some n" and "n \<noteq> []"
  shows "POST_categories gs uuid ts body db = (db', Error ''Failed to create category'' 500)"
  using assms by (simp add: POST_categories_def truthy_string_def)

lemma POST_tags_failure:
  assumes "tagService_create gs uuid ts n db = (db', Inl err)" and "n \<noteq> []"
  shows "POST_tags gs uuid ts (Some n) db = (db', Error ''Failed to create tag'' 500)"
  using assms by (simp add: POST_tags_def truthy_string_def)

text \<open>
  C7 (as amended). A create of a user, post, category or tag that violates a uniqueness
  constraint on email, slug or name stores nothing and throws the storage engine's own
  error, \<^verbatim>\<open>SQLITE_CONSTRAINT_UNIQUE\<close>, which the services pass on as it is. The handlers
  do not look at it: every error of \<^verbatim>\<open>categoryService.create\<close> (\<^verbatim>\<open>tagService.create\<close>)
  gets the one response, status 500 with "Failed to create category" ("Failed to create
  tag"), a conflict like any other failure. As stated, that the boundary is given a
  conflict error it answers other than with a generic 500, the claim fails.
\<close>

theorem unique_violation_is_generic_failure:
  "(uuid \<notin> User.id ` set (users db) \<and> e \<in> User.email ` set (users db)
      \<longrightarrow> userService_create uuid ts e n pw db = (db, Inl SQLITE_CONSTRAINT_UNIQUE))
   \<and> (uuid \<notin> Post.id ` set (posts db) \<and> CreatePostInput.slug input \<in> Post.slug ` set (posts db)
      \<longrightarrow> postService_create crt uuid now ts input db = (db, Inl SQLITE_CONSTRAINT_UNIQUE))
   \<and> (uuid \<notin> Category.id ` set (database.categories db)
       \<and> (cn \<in> Category.name ` set (database.categories db)
            \<or> gs cn \<in> Category.slug ` set (database.categories db))
      \<longrightarrow> categoryService_create gs uuid ts cn d c db = (db, Inl SQLITE_CONSTRAINT_UNIQUE)
          \<and> (cn \<noteq> [] \<longrightarrow>
                POST_categories gs uuid ts \<lparr>name = Some cn, description = d, color = c\<rparr> db
                  = (db, Error ''Failed to create category'' 500)))
   \<and> (uuid \<notin> Tag.id ` set (database.tags db)
       \<and> (tn \<in> Tag.name ` set (database.tags db) \<or> gs tn \<in> Tag.slug ` set (database.tags db))
      \<longrightarrow> tagService_create gs uuid ts tn db = (db, Inl SQLITE_CONSTRAINT_UNIQUE)
          \<and> (tn \<noteq> [] \<longrightarrow>
                POST_tags gs uuid ts (Some tn) db = (db, Error ''Failed to create tag'' 500)))
   \<and> (categoryService_create gs uuid ts cn d c db = (db', Inl err) \<and> cn \<noteq> []
      \<longrightarrow> POST_categories gs uuid ts \<lparr>name = Some cn, description = d, color = c\<rparr> db
            = (db', Error ''Failed to create category'' 500))
   \<and> (tagService_create gs uuid ts tn db = (db', Inl err) \<and> tn \<noteq> []
      \<longrightarrow> POST_tags gs uuid ts (Some tn) db = (db', Error ''Failed to create tag'' 500))"
proof (intro conjI impI)
  assume a: "uuid \<notin> Category.id ` set (database.categories db)
       \<and> (cn \<in> Category.name ` set (database.categories db)
            \<or> gs cn \<in> Category.slug ` set (database.categories db))"
  then show c: "categoryService_create gs uuid ts cn d c db = (db, Inl SQLITE_CONSTRAINT_UNIQUE)"
    by (intro categoryService_create_conflict) blast+
  assume "cn \<noteq> []"
  with c show "POST_categories gs uuid ts \<lparr>name = Some cn, description = d, color = c\<rparr> db
                  = (db, Error ''Failed to create category'' 500)"
    by (intro POST_categories_failure) simp_all
next
  assume a: "uuid \<notin> Tag.id ` set (database.tags db)
       \<and> (tn \<in> Tag.name ` set (database.tags db) \<or> gs tn \<in> Tag.slug ` set (database.tags db))"
  then show c: "tagService_create gs uuid ts tn db = (db, Inl SQLITE_CONSTRAINT_UNIQUE)"
    by (intro tagService_create_conflict) blast+
  assume "tn \<noteq> []"
  with c show "POST_tags gs uuid ts (Some tn) db = (db, Error ''Failed to create tag'' 500)"
    by (intro POST_tags_failure)
qed (auto intro: userService_create_conflict postService_create_conflict
      POST_categories_failure POST_tags_failure)

theorem unique_violation_is_generic_failure_witness:
  "''c9'' \<notin> Category.id ` set (database.categories db0)
   \<and> ''Tech'' \<in> Category.name ` set (database.categories db0)
   \<and> categoryService_create generateSlug ''c9'' ''2024-06-01 10:00:00'' ''Tech'' None None db0
       = (db0, Inl SQLITE_CONSTRAINT_UNIQUE)
   \<and> POST_categories generateSlug ''c9'' ''2024-06-01 10:00:00''
        \<lparr>name = Some ''Tech'', description = None, color = None\<rparr> db0
       = (db0, Error ''Failed to create category'' 500)"
proof -
  have 1: "''c9'' \<notin> Category.id ` set (database.categories db0)"
    by (simp add: example_defs)
  have 2: "''Tech'' \<in> Category.name ` set (database.categories db0)"
    by (simp add: example_defs)
  from unique_violation_is_generic_failure[where uuid = "''c9''" and db = db0 and cn = "''Tech''"
      and gs = generateSlug and ts = "''2024-06-01 10:00:00''" and d = None and c = None] 1 2
  show ?thesis by simp
qed

theorem unique_violation_is_generic_failure_counterexample:
  "categoryService_create generateSlug ''c9'' ''2024-06-01 10:00:00'' ''Tech'' None None db0
       = (db0, Inl SQLITE_CONSTRAINT_UNIQUE)
   \<and> categoryService_create generateSlug ''c1'' ''2024-06-01 10:00:00'' ''Travel'' None None db0
       = (db0, Inl SQLITE_CONSTRAINT_PRIMARYKEY)
   \<and> snd (POST_categories generateSlug ''c9'' ''2024-06-01 10:00:00''
        \<lparr>name = Some ''Tech'', description = None, color = None\<rparr> db0)
       = Error ''Failed to create category'' 500
   \<and> snd (POST_categories generateSlug ''c1'' ''2024-06-01 10:00:00''
        \<lparr>name = Some ''Travel'', description = None, color = None\<rparr> db0)
       = Error ''Failed to create category'' 500"
  by code_simp

section \<open>Reading time\<close>

lemma calculateReadingTime_positive: "1 \<le> calculateReadingTime s"
  by (simp add: calculateReadingTime_def)

lemma find_append_absent:
  "\<forall>x \<in> set xs. \<not> P x \<Longrightarrow> find P (xs @ ys) = find P ys"
  by (induction xs) simp_all

lemma INSERT_INTO_posts_Inr:
  assumes "INSERT_INTO_posts row db = Inr db1"
  shows "posts db1 = posts db @ [row]" and "posts_get (Post.id row) db1 = Some row"
proof -
  from assms have fresh: "Post.id row \<notin> Post.id ` set (posts db)"
    and db1: "db1 = db\<lparr>posts := posts db @ [row]\<rparr>"
    by (auto simp: INSERT_INTO_posts_def split: if_splits)
  from db1 show "posts db1 = posts db @ [row]" by simp
  from fresh have "\<forall>p \<in> set (posts db). \<not> Post.id p = Post.id row"
    by (metis image_eqI)
  then have "find (\<lambda>p. Post.id p = Post.id row) (posts db @ [row]) = find (\<lambda>p. Post.id p = Post.id row) [row]"
    by (rule find_append_absent)
  with db1 show "posts_get (Post.id row) db1 = Some row" by (simp add: posts_get_def)
qed

lemma postService_create_stages:
  assumes "postService_create crt uuid now ts input db = (db', res)"
  shows "db' = db \<and> (\<exists>e. res = Inl e)
       \<or> posts db' = posts db @ [created_row crt uuid now ts input]
          \<and> posts_get uuid db' = Some (created_row crt uuid now ts input)
          \<and> (\<forall>r. res = Inr r \<longrightarrow> r = postService_findById uuid db')"
proof (cases "INSERT_INTO_posts (created_row crt uuid now ts input) db")
  case (Inl e)
  with assms show ?thesis
    by (auto simp: postService_create_def created_row_def Let_def)
next
  case (Inr db1)
  note ins = INSERT_INTO_posts_Inr[OF Inr]
  let ?cats = "case CreatePostInput.categories input of
                 None \<Rightarrow> (db1, None)
               | Some cs \<Rightarrow> if length cs > 0 then insert_categories uuid cs db1 else (db1, None)"
  obtain db2 r2 where c: "?cats = (db2, r2)" by (cases ?cats)
  then have p2: "posts db2 = posts db1"
    by (auto split: option.splits if_splits dest: insert_categories_frame)
  let ?tags = "case CreatePostInput.tags input of
                 None \<Rightarrow> (db2, None)
               | Some ts \<Rightarrow> if length ts > 0 then insert_tags uuid ts db2 else (db2, None)"
  obtain db3 r3 where t: "?tags = (db3, r3)" by (cases ?tags)
  then have p3: "posts db3 = posts db2"
    by (auto split: option.splits if_splits dest: insert_tags_frame)
  from assms Inr c t have "db' = db2 \<or> db' = db3"
    and "\<forall>r. res = Inr r \<longrightarrow> r = postService_findById uuid db'"
    by (auto simp: postService_create_def created_row_def Let_def split: option.splits)
  with p2 p3 ins show ?thesis
    by (auto simp: posts_get_def created_row_def)
qed

lemma UPDATE_posts_rows:
  "UPDATE_posts us i db = Inr db1 \<Longrightarrow>
     posts db1 = map (\<lambda>p. if Post.id p = i then SET us p else p) (posts db)"
  by (auto simp: UPDATE_posts_def split: if_splits)

lemma postService_update_rows:
  assumes "postService_update crt pnow unow input db = (db', res)"
  shows "posts db' = posts db
       \<or> posts db' = map (\<lambda>p. if Post.id p = UpdatePostInput.id input
                                then SET (updates_of crt pnow unow input) p else p) (posts db)"
  using assms
proof (cases rule: postService_update_stages)
  case (row_rejected e)
  then show ?thesis by simp
next
  case (categories_rejected db1 e)
  then show ?thesis
    by (auto dest!: UPDATE_posts_rows update_categories_frame)
next
  case (tags_rejected db1 db2 e)
  then show ?thesis
    by (auto dest!: UPDATE_posts_rows update_categories_frame update_tags_frame)
next
  case (completed db1 db2)
  then show ?thesis
    by (auto dest!: UPDATE_posts_rows update_categories_frame update_tags_frame)
qed

subsection \<open>Stored reading times\<close>

lemma calculateReadingTime_positive_integer: "positive_integer (calculateReadingTime s)"
  by (simp add: positive_integer_def calculateReadingTime_def)

lemma created_row_id [simp]: "Post.id (created_row crt uuid now ts input) = uuid"
  by (simp add: created_row_def)

lemma postService_create_succeeds:
  assumes fresh: "uuid \<notin> Post.id ` set (posts db)"
    and slug: "CreatePostInput.slug input \<notin> Post.slug ` set (posts db)"
    and author: "CreatePostInput.author_id input \<in> User.id ` set (users db)"
    and fk_cats: "fst ` set (post_categories db) \<subseteq> Post.id ` set (posts db)"
    and fk_tags: "fst ` set (post_tags db) \<subseteq> Post.id ` set (posts db)"
    and cats: "\<forall>cs. CreatePostInput.categories input = Some cs \<longrightarrow>
                 distinct cs \<and> set cs \<subseteq> Category.id ` set (database.categories db)"
    and tgs: "\<forall>ts. CreatePostInput.tags input = Some ts \<longrightarrow>
                 distinct ts \<and> set ts \<subseteq> Tag.id ` set (database.tags db)"
  shows "\<exists>db' r. postService_create crt uuid now ts input db = (db', Inr (Some r))
           \<and> posts_get uuid db' = Some (Post.truncate r)
           \<and> Post.truncate r = created_row crt uuid now ts input"
proof -
  let ?row = "created_row crt uuid now ts input"
  let ?db1 = "db\<lparr>posts := posts db @ [?row]\<rparr>"
  have ins: "INSERT_INTO_posts ?row db = Inr ?db1"
    using fresh slug author by (simp add: INSERT_INTO_posts_def) (simp add: created_row_def)
  have no_c: "\<forall>c. (uuid, c) \<notin> set (post_categories db)"
    using fresh fk_cats by (metis fst_conv image_eqI subsetD)
  have no_t: "\<forall>t. (uuid, t) \<notin> set (post_tags db)"
    using fresh fk_tags by (metis fst_conv image_eqI subsetD)
  let ?cats = "case CreatePostInput.categories input of
                 None \<Rightarrow> (?db1, None)
               | Some cs \<Rightarrow> if length cs > 0 then insert_categories uuid cs ?db1 else (?db1, None)"
  obtain db2 r2 where c: "?cats = (db2, r2)" by (cases ?cats)
  have r2: "r2 = None"
  proof (cases "CreatePostInput.categories input")
    case None
    with c show ?thesis by simp
  next
    case (Some cs)
    with cats no_c have "snd (insert_categories uuid cs ?db1) = None"
      by (intro insert_categories_succeeds) auto
    with c Some show ?thesis by (auto split: if_splits)
  qed
  have fr2: "posts db2 = posts ?db1" "database.tags db2 = database.tags ?db1"
    "post_tags db2 = post_tags ?db1"
    using c by (auto split: option.splits if_splits dest: insert_categories_frame)
  let ?tags = "case CreatePostInput.tags input of
                 None \<Rightarrow> (db2, None)
               | Some ts \<Rightarrow> if length ts > 0 then insert_tags uuid ts db2 else (db2, None)"
  obtain db3 r3 where t: "?tags = (db3, r3)" by (cases ?tags)
  have r3: "r3 = None"
  proof (cases "CreatePostInput.tags input")
    case None
    with t show ?thesis by simp
  next
    case (Some tgl)
    with tgs no_t fr2 have "snd (insert_tags uuid tgl db2) = None"
      by (intro insert_tags_succeeds) auto
    with t Some show ?thesis by (auto split: if_splits)
  qed
  have fr3: "posts db3 = posts db2"
    using t by (auto split: option.splits if_splits dest: insert_tags_frame)
  have run: "postService_create crt uuid now ts input db = (db3, Inr (postService_findById uuid db3))"
    using ins c t r2 r3
    by (simp add: postService_create_def Let_def created_row_def[symmetric])
  have "posts_get uuid ?db1 = Some ?row"
    using INSERT_INTO_posts_Inr(2)[OF ins] by simp
  with fr2 fr3 have g: "posts_get uuid db3 = Some ?row" by (simp add: posts_get_def)
  then have "postService_findById uuid db3 = Some (with_relations ?row db3)"
    by (simp add: posts_get_findById)
  with run g show ?thesis by simp
qed

lemma create_stores_reading_time:
  assumes "uuid \<notin> Post.id ` set (posts db)"
    and "CreatePostInput.slug input \<notin> Post.slug ` set (posts db)"
    and "CreatePostInput.author_id input \<in> User.id ` set (users db)"
    and "fst ` set (post_categories db) \<subseteq> Post.id ` set (posts db)"
    and "fst ` set (post_tags db) \<subseteq> Post.id ` set (posts db)"
    and "\<forall>cs. CreatePostInput.categories input = Some cs \<longrightarrow>
               distinct cs \<and> set cs \<subseteq> Category.id ` set (database.categories db)"
    and "\<forall>ts. CreatePostInput.tags input = Some ts \<longrightarrow>
               distinct ts \<and> set ts \<subseteq> Tag.id ` set (database.tags db)"
  shows "\<exists>db' r. postService_create crt uuid now ts input db = (db', Inr (Some r))
              \<and> posts_get uuid db' = Some (Post.truncate r)
              \<and> Post.reading_time r =
                  (case CreatePostInput.reading_time input of
                     None \<Rightarrow> crt (CreatePostInput.content input)
                   | Some n \<Rightarrow> if n = 0 then crt (CreatePostInput.content input) else n)"
proof -
  from postService_create_succeeds[OF assms, of crt now ts] obtain db' r where
    run: "postService_create crt uuid now ts input db = (db', Inr (Some r))"
    and g: "posts_get uuid db' = Some (Post.truncate r)"
    and row: "Post.truncate r = created_row crt uuid now ts input"
    by blast
  have "Post.reading_time r = Post.reading_time (Post.truncate r)"
    by (simp add: Post.truncate_def)
  also have "\<dots> = (case CreatePostInput.reading_time input of
                     None \<Rightarrow> crt (CreatePostInput.content input)
                   | Some n \<Rightarrow> if n = 0 then crt (CreatePostInput.content input) else n)"
    unfolding row by (simp add: created_row_def)
  finally show ?thesis using run g by blast
qed

lemma create_keeps_positive:
  assumes inv: "\<forall>p \<in> set (posts db). positive_integer (Post.reading_time p)"
    and sup: "\<forall>n. CreatePostInput.reading_time input = Some n \<longrightarrow> n = 0 \<or> positive_integer n"
    and crt: "\<And>s. positive_integer (crt s)"
  shows "\<forall>p \<in> set (posts (fst (postService_create crt uuid now ts input db))).
              positive_integer (Post.reading_time p)"
proof -
  let ?run = "postService_create crt uuid now ts input db"
  have "Post.reading_time (created_row crt uuid now ts input) =
          (case CreatePostInput.reading_time input of
             None \<Rightarrow> crt (CreatePostInput.content input)
           | Some n \<Rightarrow> if n = 0 then crt (CreatePostInput.content input) else n)"
    by (simp add: created_row_def)
  with sup crt have new: "positive_integer (Post.reading_time (created_row crt uuid now ts input))"
    by (cases "CreatePostInput.reading_time input") auto
  from postService_create_stages[OF surjective_pairing[of ?run]]
  have "posts (fst ?run) = posts db
        \<or> posts (fst ?run) = posts db @ [created_row crt uuid now ts input]"
    by (elim disjE conjE) simp_all
  then show ?thesis
  proof
    assume "posts (fst ?run) = posts db"
    with inv show ?thesis by simp
  next
    assume "posts (fst ?run) = posts db @ [created_row crt uuid now ts input]"
    with inv new show ?thesis by simp
  qed
qed

lemma update_keeps_positive:
  assumes inv: "\<forall>p \<in> set (posts db). positive_integer (Post.reading_time p)"
    and crt: "\<And>s. positive_integer (crt s)"
  shows "\<forall>p \<in> set (posts (fst (postService_update crt pnow unow uinput db))).
              positive_integer (Post.reading_time p)"
proof -
  let ?run = "postService_update crt pnow unow uinput db"
  let ?us = "updates_of crt pnow unow uinput"
  have rt: "Post.reading_time (SET ?us p) =
              (case UpdatePostInput.content uinput of
                 None \<Rightarrow> Post.reading_time p | Some v \<Rightarrow> crt v)" for p
    by (simp add: SET_updates_of)
  have set: "positive_integer (Post.reading_time (SET ?us p))"
    if "positive_integer (Post.reading_time p)" for p
    unfolding rt using that crt by (cases "UpdatePostInput.content uinput") simp_all
  from postService_update_rows[OF surjective_pairing[of ?run]]
  have "posts (fst ?run) = posts db
        \<or> posts (fst ?run) = map (\<lambda>p. if Post.id p = UpdatePostInput.id uinput then SET ?us p else p) (posts db)" .
  then show ?thesis
  proof
    assume "posts (fst ?run) = posts db"
    with inv show ?thesis by simp
  next
    assume m: "posts (fst ?run) = map (\<lambda>p. if Post.id p = UpdatePostInput.id uinput then SET ?us p else p) (posts db)"
    show ?thesis
    proof
      fix p assume "p \<in> set (posts (fst ?run))"
      then have "p \<in> (\<lambda>p. if Post.id p = UpdatePostInput.id uinput then SET ?us p else p) ` set (posts db)"
        unfolding m by (simp only: set_map)
      then obtain p0 where p: "p = (if Post.id p0 = UpdatePostInput.id uinput then SET ?us p0 else p0)"
        and p0: "p0 \<in> set (posts db)"
        by (rule imageE)
      from inv p0 have old: "positive_integer (Post.reading_time p0)" by (rule bspec)
      then have new: "positive_integer (Post.reading_time (SET ?us p0))" by (rule set)
      show "positive_integer (Post.reading_time p)"
      proof (cases "Post.id p0 = UpdatePostInput.id uinput")
        case True
        with p have "p = SET ?us p0" by simp
        with new show ?thesis by (simp only:)
      next
        case False
        with p have "p = p0" by simp
        with old show ?thesis by (simp only:)
      qed
    qed
  qed
qed

lemma update_recomputes_reading_time:
  assumes g: "posts_get (UpdatePostInput.id uinput) db = Some q"
  shows "\<exists>q'. posts_get (UpdatePostInput.id uinput)
                    (fst (postService_update crt pnow unow uinput db)) = Some q'
              \<and> Post.reading_time q' =
                  (if UPDATE_posts (updates_of crt pnow unow uinput)
                        (UpdatePostInput.id uinput) db \<noteq> Inl SQLITE_CONSTRAINT_UNIQUE
                   then (case UpdatePostInput.content uinput of
                           None \<Rightarrow> Post.reading_time q
                         | Some v \<Rightarrow> crt v)
                   else Post.reading_time q)"
proof -
  let ?run = "postService_update crt pnow unow uinput db"
  let ?us = "updates_of crt pnow unow uinput"
  have rt: "Post.reading_time (SET ?us q) =
              (case UpdatePostInput.content uinput of
                 None \<Rightarrow> Post.reading_time q | Some v \<Rightarrow> crt v)"
    by (simp add: SET_updates_of)
  from postService_update_row[OF surjective_pairing[of ?run] g]
  consider "posts_get (UpdatePostInput.id uinput) (fst ?run) = Some q"
      "UPDATE_posts ?us (UpdatePostInput.id uinput) db = Inl SQLITE_CONSTRAINT_UNIQUE"
    | db1 where "posts_get (UpdatePostInput.id uinput) (fst ?run) = Some (SET ?us q)"
      "UPDATE_posts ?us (UpdatePostInput.id uinput) db = Inr db1"
    by blast
  then show ?thesis
  proof cases
    case 1
    then show ?thesis by simp
  next
    case 2
    then show ?thesis by (simp add: rt)
  qed
qed

text \<open>
  C8 (as amended). The estimator returns a positive integer. When the new id and the slug
  are free, the author exists, every association row belongs to a stored post and the
  requested categories and tags exist and are not repeated, \<^verbatim>\<open>create\<close> succeeds and the row it stores and returns holds the reading
  time computed from the content when none, or 0, is supplied, and the supplied number as it
  is given otherwise. \<^verbatim>\<open>update\<close> recomputes the stored reading time exactly when the
  input has a \<^verbatim>\<open>content\<close> field and the row is written (the slug is not taken by
  another post), and leaves it as it was otherwise. So every stored reading time stays a
  positive integer under \<^verbatim>\<open>create\<close> and \<^verbatim>\<open>update\<close>, whatever their outcome, as
  long as each reading time supplied at creation is 0 or a positive integer. As stated
  ("always a positive integer") the claim fails: \<^verbatim>\<open>create\<close> stores a supplied
  negative or fractional number. The estimator is the one modelled from the spec above.
\<close>

theorem reading_time_positive:
  "positive_integer (calculateReadingTime s)
   \<and> (uuid \<notin> Post.id ` set (posts db)
        \<and> CreatePostInput.slug input \<notin> Post.slug ` set (posts db)
        \<and> CreatePostInput.author_id input \<in> User.id ` set (users db)
        \<and> fst ` set (post_categories db) \<subseteq> Post.id ` set (posts db)
        \<and> fst ` set (post_tags db) \<subseteq> Post.id ` set (posts db)
        \<and> (\<forall>cs. CreatePostInput.categories input = Some cs \<longrightarrow>
               distinct cs \<and> set cs \<subseteq> Category.id ` set (database.categories db))
        \<and> (\<forall>ts. CreatePostInput.tags input = Some ts \<longrightarrow>
               distinct ts \<and> set ts \<subseteq> Tag.id ` set (database.tags db))
       \<longrightarrow> (\<exists>db' r. postService_create calculateReadingTime uuid now ts input db
                         = (db', Inr (Some r))
              \<and> posts_get uuid db' = Some (Post.truncate r)
              \<and> Post.reading_time r =
                  (case CreatePostInput.reading_time input of
                     None \<Rightarrow> calculateReadingTime (CreatePostInput.content input)
                   | Some n \<Rightarrow> if n = 0 then calculateReadingTime (CreatePostInput.content input)
                              else n)))
   \<and> ((\<forall>p \<in> set (posts db). positive_integer (Post.reading_time p))
        \<and> (\<forall>n. CreatePostInput.reading_time input = Some n \<longrightarrow> n = 0 \<or> positive_integer n)
       \<longrightarrow> (\<forall>p \<in> set (posts (fst (postService_create calculateReadingTime uuid now ts input db))).
              positive_integer (Post.reading_time p)))
   \<and> ((\<forall>p \<in> set (posts db). positive_integer (Post.reading_time p))
       \<longrightarrow> (\<forall>p \<in> set (posts (fst (postService_update calculateReadingTime pnow unow uinput db))).
              positive_integer (Post.reading_time p)))
   \<and> (posts_get (UpdatePostInput.id uinput) db = Some q
       \<longrightarrow> (\<exists>q'. posts_get (UpdatePostInput.id uinput)
                    (fst (postService_update calculateReadingTime pnow unow uinput db)) = Some q'
              \<and> Post.reading_time q' =
                  (if UPDATE_posts (updates_of calculateReadingTime pnow unow uinput)
                        (UpdatePostInput.id uinput) db \<noteq> Inl SQLITE_CONSTRAINT_UNIQUE
                   then (case UpdatePostInput.content uinput of
                           None \<Rightarrow> Post.reading_time q
                         | Some v \<Rightarrow> calculateReadingTime v)
                   else Post.reading_time q)))"
proof (intro conjI impI)
  show "positive_integer (calculateReadingTime s)"
    by (rule calculateReadingTime_positive_integer)
next
  assume a: "uuid \<notin> Post.id ` set (posts db)
        \<and> CreatePostInput.slug input \<notin> Post.slug ` set (posts db)
        \<and> CreatePostInput.author_id input \<in> User.id ` set (users db)
        \<and> fst ` set (post_categories db) \<subseteq> Post.id ` set (posts db)
        \<and> fst ` set (post_tags db) \<subseteq> Post.id ` set (posts db)
        \<and> (\<forall>cs. CreatePostInput.categories input = Some cs \<longrightarrow>
               distinct cs \<and> set cs \<subseteq> Category.id ` set (database.categories db))
        \<and> (\<forall>ts. CreatePostInput.tags input = Some ts \<longrightarrow>
               distinct ts \<and> set ts \<subseteq> Tag.id ` set (database.tags db))"
  show "\<exists>db' r. postService_create calculateReadingTime uuid now ts input db
                         = (db', Inr (Some r))
              \<and> posts_get uuid db' = Some (Post.truncate r)
              \<and> Post.reading_time r =
                  (case CreatePostInput.reading_time input of
                     None \<Rightarrow> calculateReadingTime (CreatePostInput.content input)
                   | Some n \<Rightarrow> if n = 0 then calculateReadingTime (CreatePostInput.content input)
                              else n)"
    by (rule create_stores_reading_time) (insert a, blast)+
next
  assume a: "(\<forall>p \<in> set (posts db). positive_integer (Post.reading_time p))
        \<and> (\<forall>n. CreatePostInput.reading_time input = Some n \<longrightarrow> n = 0 \<or> positive_integer n)"
  then have inv: "\<forall>p \<in> set (posts db). positive_integer (Post.reading_time p)"
    and sup: "\<forall>n. CreatePostInput.reading_time input = Some n \<longrightarrow> n = 0 \<or> positive_integer n"
    by (rule conjunct1, rule conjunct2)
  show "\<forall>p \<in> set (posts (fst (postService_create calculateReadingTime uuid now ts input db))).
              positive_integer (Post.reading_time p)"
    by (rule create_keeps_positive[OF inv sup calculateReadingTime_positive_integer])
next
  assume inv: "\<forall>p \<in> set (posts db). positive_integer (Post.reading_time p)"
  show "\<forall>p \<in> set (posts (fst (postService_update calculateReadingTime pnow unow uinput db))).
              positive_integer (Post.reading_time p)"
    by (rule update_keeps_positive[OF inv calculateReadingTime_positive_integer])
next
  assume g: "posts_get (UpdatePostInput.id uinput) db = Some q"
  show "\<exists>q'. posts_get (UpdatePostInput.id uinput)
                    (fst (postService_update calculateReadingTime pnow unow uinput db)) = Some q'
              \<and> Post.reading_time q' =
                  (if UPDATE_posts (updates_of calculateReadingTime pnow unow uinput)
                        (UpdatePostInput.id uinput) db \<noteq> Inl SQLITE_CONSTRAINT_UNIQUE
                   then (case UpdatePostInput.content uinput of
                           None \<Rightarrow> Post.reading_time q
                         | Some v \<Rightarrow> calculateReadingTime v)
                   else Post.reading_time q)"
    by (rule update_recomputes_reading_time[OF g])
qed

theorem reading_time_positive_witness:
  "(\<exists>r. snd (postService_create calculateReadingTime ''p3'' ''2024-06-01T10:00:00.000Z''
               ''2024-06-01 10:00:00'' second_post db0) = Inr (Some r)
        \<and> Post.reading_time r = 1)
   \<and> map_option Post.reading_time
        (posts_get ''p3''
          (fst (postService_create calculateReadingTime ''p3'' ''2024-06-01T10:00:00.000Z''
                 ''2024-06-01 10:00:00'' second_post db0))) = Some 1
   \<and> list_all (\<lambda>p. positive_integer (Post.reading_time p))
        (posts (fst (postService_create calculateReadingTime ''p3'' ''2024-06-01T10:00:00.000Z''
                      ''2024-06-01 10:00:00'' second_post db0)))
   \<and> (\<exists>q'. posts_get ''p1''
               (fst (postService_update calculateReadingTime ''2024-06-01T10:00:00.000Z''
                      ''2024-06-01T10:00:00.001Z''
                      ((only_id ''p1'')\<lparr>UpdatePostInput.content := Some ''one two three''\<rparr>) db0))
             = Some q'
          \<and> Post.reading_time q' = calculateReadingTime ''one two three'')"
proof -
  let ?uinput = "(only_id ''p1'')\<lparr>UpdatePostInput.content := Some ''one two three''\<rparr>"
  note inst = reading_time_positive[where db = db0 and input = second_post and uuid = "''p3''"
      and now = "''2024-06-01T10:00:00.000Z''" and ts = "''2024-06-01 10:00:00''"
      and pnow = "''2024-06-01T10:00:00.000Z''" and unow = "''2024-06-01T10:00:00.001Z''"
      and uinput = ?uinput and q = hello and s = "''one two three''"]
  have pre: "''p3'' \<notin> Post.id ` set (posts db0)
        \<and> CreatePostInput.slug second_post \<notin> Post.slug ` set (posts db0)
        \<and> CreatePostInput.author_id second_post \<in> User.id ` set (users db0)
        \<and> fst ` set (post_categories db0) \<subseteq> Post.id ` set (posts db0)
        \<and> fst ` set (post_tags db0) \<subseteq> Post.id ` set (posts db0)
        \<and> (\<forall>cs. CreatePostInput.categories second_post = Some cs \<longrightarrow>
               distinct cs \<and> set cs \<subseteq> Category.id ` set (database.categories db0))
        \<and> (\<forall>ts. CreatePostInput.tags second_post = Some ts \<longrightarrow>
               distinct ts \<and> set ts \<subseteq> Tag.id ` set (database.tags db0))"
    by (simp add: second_post_def example_defs)
  have rt: "calculateReadingTime (CreatePostInput.content second_post) = 1"
    unfolding second_post_def by code_simp
  have none: "CreatePostInput.reading_time second_post = None"
    by (simp add: second_post_def)
  from inst pre have "\<exists>db' r. postService_create calculateReadingTime ''p3''
        ''2024-06-01T10:00:00.000Z'' ''2024-06-01 10:00:00'' second_post db0 = (db', Inr (Some r))
        \<and> posts_get ''p3'' db' = Some (Post.truncate r)
        \<and> Post.reading_time r =
             (case CreatePostInput.reading_time second_post of
                None \<Rightarrow> calculateReadingTime (CreatePostInput.content second_post)
              | Some n \<Rightarrow> if n = 0 then calculateReadingTime (CreatePostInput.content second_post)
                         else n)"
    by blast
  then obtain db' r where
    run: "postService_create calculateReadingTime ''p3''
        ''2024-06-01T10:00:00.000Z'' ''2024-06-01 10:00:00'' second_post db0 = (db', Inr (Some r))"
    and stored: "posts_get ''p3'' db' = Some (Post.truncate r)"
    and one: "Post.reading_time r = 1"
    by (auto simp: none rt)
  from run one have 1: "\<exists>r. snd (postService_create calculateReadingTime ''p3''
        ''2024-06-01T10:00:00.000Z'' ''2024-06-01 10:00:00'' second_post db0) = Inr (Some r)
        \<and> Post.reading_time r = 1"
    by simp
  from run stored one have 0: "map_option Post.reading_time
        (posts_get ''p3''
          (fst (postService_create calculateReadingTime ''p3'' ''2024-06-01T10:00:00.000Z''
                 ''2024-06-01 10:00:00'' second_post db0))) = Some 1"
    by (simp add: Post.truncate_def)
  have inv0: "\<forall>p \<in> set (posts db0). positive_integer (Post.reading_time p)"
    by (simp add: example_defs positive_integer_def)
  from inst inv0 none
  have 2: "\<forall>p \<in> set (posts (fst (postService_create calculateReadingTime ''p3''
               ''2024-06-01T10:00:00.000Z'' ''2024-06-01 10:00:00'' second_post db0))).
             positive_integer (Post.reading_time p)"
    by simp
  have acc: "UPDATE_posts (updates_of calculateReadingTime ''2024-06-01T10:00:00.000Z''
               ''2024-06-01T10:00:00.001Z'' ?uinput) (UpdatePostInput.id ?uinput) db0
             \<noteq> Inl SQLITE_CONSTRAINT_UNIQUE"
    by (simp add: UPDATE_posts_def slug_taken_def SET_updates_of example_defs)
  have g: "posts_get (UpdatePostInput.id ?uinput) db0 = Some hello"
    by (simp add: db0_p1 only_id_def)
  from inst g acc
  have 3: "\<exists>q'. posts_get ''p1''
               (fst (postService_update calculateReadingTime ''2024-06-01T10:00:00.000Z''
                      ''2024-06-01T10:00:00.001Z'' ?uinput db0)) = Some q'
          \<and> Post.reading_time q' = calculateReadingTime ''one two three''"
    by (simp add: only_id_def)
  from 0 1 2 3 show ?thesis by (simp add: list_all_iff)
qed

theorem reading_time_positive_counterexample:
  "map_option Post.reading_time
     (posts_get ''p3''
       (fst (postService_create calculateReadingTime ''p3'' ''2024-06-01T10:00:00.000Z''
              ''2024-06-01 10:00:00''
              (second_post\<lparr>CreatePostInput.reading_time := Some (- 3)\<rparr>) db0)))
     = Some (- 3)
   \<and> \<not> positive_integer (- 3)
   \<and> map_option Post.reading_time
     (posts_get ''p3''
       (fst (postService_create calculateReadingTime ''p3'' ''2024-06-01T10:00:00.000Z''
              ''2024-06-01 10:00:00''
              (second_post\<lparr>CreatePostInput.reading_time := Some (5 / 2)\<rparr>) db0)))
     = Some (5 / 2)
   \<and> \<not> positive_integer (5 / 2)"
  by code_simp

end
